theory Spec2Isabelle
  imports
    Main
    "HOL-Library.Char_ord"
    "HOL-Library.List_Lexorder"
    "HOL-Library.Multiset"
    "HOL-Library.AList"
    "HOL-Library.Sublist"
begin

section \<open>Strings and paths of the Go standard library\<close>

text \<open>
  Go strings are byte sequences and are compared bytewise and lexicographically; here they are
  \<^typ>\<open>string\<close> with the order of \<open>List_Lexorder\<close> over the order of \<open>Char_ord\<close>.

  \<open>strings.Split\<close> and the Unix versions of \<open>filepath.Clean\<close>, \<open>Dir\<close>, \<open>Base\<close> and
  \<open>Join\<close> belong to the Go standard library. They are written here from their documented rules:
  \<open>Clean\<close> drops empty and \<open>.\<close> elements, lets a \<open>..\<close> element remove the element before it
  (a rooted path drops a leading \<open>..\<close>, a relative one keeps it) and turns the empty result
  into \<open>.\<close>.
\<close>

fun splitOn :: "char \<Rightarrow> string \<Rightarrow> string list" where
  "splitOn c [] = [[]]"
| "splitOn c (x # xs) =
     (if x = c then [] # splitOn c xs
      else (case splitOn c xs of [] \<Rightarrow> [[x]] | y # ys \<Rightarrow> (x # y) # ys))"

definition strings_Split :: "string \<Rightarrow> string list" where
  "strings_Split s = splitOn CHR '':'' s"

fun joinSlash :: "string list \<Rightarrow> string" where
  "joinSlash [] = []"
| "joinSlash [x] = x"
| "joinSlash (x # y # ys) = x @ ''/'' @ joinSlash (y # ys)"

definition cleanStep :: "bool \<Rightarrow> string list \<Rightarrow> string \<Rightarrow> string list" where
  "cleanStep rooted st c =
     (if c = [] \<or> c = ''.'' then st
      else if c = ''..'' then
        (case st of
           [] \<Rightarrow> if rooted then [] else [''..'']
         | t # ts \<Rightarrow> if t = ''..'' then ''..'' # st else ts)
      else c # st)"

definition Clean :: "string \<Rightarrow> string" where
  "Clean s =
     (let rooted = (s \<noteq> [] \<and> hd s = CHR ''/'');
          st = foldl (cleanStep rooted) [] (splitOn CHR ''/'' s);
          out = (if rooted then ''/'' else []) @ joinSlash (rev st)
      in if out = [] then ''.'' else out)"

definition Dir :: "string \<Rightarrow> string" where
  "Dir p = Clean (rev (dropWhile (\<lambda>c. c \<noteq> CHR ''/'') (rev p)))"

definition Base :: "string \<Rightarrow> string" where
  "Base p =
     (if p = [] then ''.''
      else (let q = dropWhile (\<lambda>c. c = CHR ''/'') (rev p);
                b = rev (takeWhile (\<lambda>c. c \<noteq> CHR ''/'') q)
            in if b = [] then ''/'' else b))"

definition Join :: "string \<Rightarrow> string \<Rightarrow> string" where
  "Join a b =
     (if a \<noteq> [] then Clean (a @ ''/'' @ b)
      else if b \<noteq> [] then Clean b
      else [])"

definition HasPrefix :: "string \<Rightarrow> string \<Rightarrow> bool" where
  "HasPrefix s p = (take (length p) s = p)"

subsection \<open>\<open>Dir\<close> shortens a path\<close>

text \<open>
  \<open>GetFolder\<close> and \<open>SplitPath\<close> loop on \<open>path = filepath.Dir(path)\<close> until the path is
  \<open>.\<close> or \<open>/\<close>. The loops end because \<open>Dir\<close> of any other path is \<open>.\<close>, \<open>/\<close> or a
  shorter path.
\<close>

definition stackWeight :: "string list \<Rightarrow> nat" where
  "stackWeight st = sum_list (map length st) + length st"

definition compsWeight :: "string list \<Rightarrow> nat" where
  "compsWeight cs = sum_list (map (\<lambda>c. if c = [] then 0 else length c + 1) cs)"

lemma splitOn_not_Nil: "splitOn c s \<noteq> []"
  by (induction s) (auto split: list.splits)

lemma splitOn_snoc: "splitOn c (q @ [c]) = splitOn c q @ [[]]"
  by (induction q) (auto split: list.splits simp: splitOn_not_Nil)

lemma splitOn_length: "sum_list (map length (splitOn c s)) + length (splitOn c s) = length s + 1"
  by (induction s) (auto split: list.splits simp: splitOn_not_Nil)

lemma splitOn_hd: "s \<noteq> [] \<Longrightarrow> hd s = c \<Longrightarrow> hd (splitOn c s) = []"
  by (cases s) auto

lemma cleanStep_weight:
  "stackWeight (cleanStep r st c) \<le> stackWeight st + (if c = [] then 0 else length c + 1)"
  by (auto simp: cleanStep_def stackWeight_def split: list.splits)

lemma foldl_cleanStep_weight:
  "stackWeight (foldl (cleanStep r) st cs) \<le> stackWeight st + compsWeight cs"
proof (induction cs arbitrary: st)
  case Nil
  then show ?case by (simp add: compsWeight_def)
next
  case (Cons c cs)
  have "stackWeight (foldl (cleanStep r) (cleanStep r st c) cs)
          \<le> stackWeight (cleanStep r st c) + compsWeight cs"
    by (rule Cons.IH)
  also have "\<dots> \<le> stackWeight st + (if c = [] then 0 else length c + 1) + compsWeight cs"
    using cleanStep_weight[of r st c] by simp
  finally show ?case by (simp add: compsWeight_def)
qed

lemma joinSlash_length:
  "length (joinSlash xs) = (if xs = [] then 0 else stackWeight xs - 1)"
  by (induction xs rule: joinSlash.induct) (auto simp: stackWeight_def)

lemma stackWeight_rev: "stackWeight (rev st) = stackWeight st"
  by (simp add: stackWeight_def rev_map[symmetric])

lemma compsWeight_le: "compsWeight cs \<le> sum_list (map length cs) + length cs"
  by (induction cs) (auto simp: compsWeight_def)

lemma compsWeight_le_empty:
  "[] \<in> set cs \<Longrightarrow> compsWeight cs + 1 \<le> sum_list (map length cs) + length cs"
proof (induction cs)
  case Nil
  then show ?case by simp
next
  case (Cons c cs)
  show ?case
  proof (cases "c = []")
    case True
    then show ?thesis using compsWeight_le[of cs] by (simp add: compsWeight_def)
  next
    case False
    then have "[] \<in> set cs" using Cons.prems by auto
    from Cons.IH[OF this] show ?thesis by (simp add: compsWeight_def)
  qed
qed

lemma compsWeight_snoc_empty: "compsWeight (cs @ [[]]) = compsWeight cs"
  by (simp add: compsWeight_def)

lemma Clean_not_Nil: "Clean s \<noteq> []"
  by (auto simp: Clean_def Let_def)

lemma Clean_slash_bound:
  "Clean (q @ ''/'') = ''.'' \<or> Clean (q @ ''/'') = ''/'' \<or> length (Clean (q @ ''/'')) \<le> length q"
proof -
  let ?s = "q @ ''/''"
  let ?r = "?s \<noteq> [] \<and> hd ?s = CHR ''/''"
  let ?cs = "splitOn CHR ''/'' ?s"
  let ?st = "foldl (cleanStep ?r) [] ?cs"
  have cs: "?cs = splitOn CHR ''/'' q @ [[]]" using splitOn_snoc[of "CHR ''/''" q] by simp
  have w: "stackWeight ?st \<le> compsWeight (splitOn CHR ''/'' q)"
    using foldl_cleanStep_weight[of ?r "[]" ?cs] by (simp add: cs compsWeight_snoc_empty stackWeight_def)
  show ?thesis
  proof (cases "?st = []")
    case True
    then show ?thesis by (auto simp: Clean_def Let_def)
  next
    case False
    have jl: "length (joinSlash (rev ?st)) = stackWeight ?st - 1"
      using False by (simp add: joinSlash_length stackWeight_rev)
    have pos: "stackWeight ?st \<ge> 1" using False by (cases ?st) (auto simp: stackWeight_def)
    show ?thesis
    proof (cases ?r)
      case True
      show ?thesis
      proof (cases "q = []")
        case True
        then show ?thesis by (simp add: Clean_def Let_def cleanStep_def)
      next
        case qne: False
        then have "hd q = CHR ''/''" using True by (cases q) auto
        then have "hd (splitOn CHR ''/'' q) = []" using qne by (simp add: splitOn_hd)
        then have "[] \<in> set (splitOn CHR ''/'' q)"
          using splitOn_not_Nil[of "CHR ''/''" q] by (metis list.set_sel(1))
        from compsWeight_le_empty[OF this] splitOn_length[of "CHR ''/''" q]
        have "compsWeight (splitOn CHR ''/'' q) \<le> length q" by simp
        then have "stackWeight ?st \<le> length q" using w by simp
        moreover have "Clean ?s = ''/'' @ joinSlash (rev ?st)"
          using True by (simp add: Clean_def Let_def)
        ultimately show ?thesis using jl pos by simp
      qed
    next
      case nr: False
      from compsWeight_le[of "splitOn CHR ''/'' q"] splitOn_length[of "CHR ''/''" q]
      have "compsWeight (splitOn CHR ''/'' q) \<le> length q + 1" by simp
      then have "stackWeight ?st \<le> length q + 1" using w by simp
      moreover have "Clean ?s = ''.'' \<or> Clean ?s = joinSlash (rev ?st)"
        using nr by (simp add: Clean_def Let_def)
      ultimately show ?thesis using jl by auto
    qed
  qed
qed

lemma dirPrefix_cases:
  "rev (dropWhile (\<lambda>c. c \<noteq> CHR ''/'') (rev p)) = [] \<or>
   (\<exists>q. rev (dropWhile (\<lambda>c. c \<noteq> CHR ''/'') (rev p)) = q @ ''/'' \<and> length q < length p)"
proof (cases "dropWhile (\<lambda>c. c \<noteq> CHR ''/'') (rev p)")
  case Nil
  then show ?thesis by simp
next
  case (Cons a as)
  have "a = CHR ''/''" using Cons by (metis (mono_tags, lifting) hd_dropWhile list.distinct(1) list.sel(1))
  moreover have "length (dropWhile (\<lambda>c. c \<noteq> CHR ''/'') (rev p)) \<le> length (rev p)"
    by (rule length_dropWhile_le)
  ultimately show ?thesis using Cons by auto
qed

lemma Dir_bound: "Dir p = ''.'' \<or> Dir p = ''/'' \<or> length (Dir p) < length p"
  using dirPrefix_cases[of p]
proof
  assume "rev (dropWhile (\<lambda>c. c \<noteq> CHR ''/'') (rev p)) = []"
  then have "Dir p = Clean []" unfolding Dir_def by (rule arg_cong)
  also have "Clean [] = ''.''" by (simp add: Clean_def cleanStep_def)
  finally show ?thesis by simp
next
  assume "\<exists>q. rev (dropWhile (\<lambda>c. c \<noteq> CHR ''/'') (rev p)) = q @ ''/'' \<and> length q < length p"
  then obtain q where q: "rev (dropWhile (\<lambda>c. c \<noteq> CHR ''/'') (rev p)) = q @ ''/''" "length q < length p"
    by blast
  then show ?thesis using Clean_slash_bound[of q] by (auto simp: Dir_def)
qed

definition pathMeasure :: "string \<Rightarrow> nat" where
  "pathMeasure p = (if p = ''.'' \<or> p = ''/'' then 0 else if p = [] then 1 else length p + 1)"

lemma Dir_measure: "p \<noteq> ''.'' \<Longrightarrow> p \<noteq> ''/'' \<Longrightarrow> pathMeasure (Dir p) < pathMeasure p"
  using Dir_bound[of p] Clean_not_Nil[of "rev (dropWhile (\<lambda>c. c \<noteq> CHR ''/'') (rev p))"]
  by (auto simp: pathMeasure_def Dir_def)

section \<open>Entities\<close>

text \<open>
  A \<open>*Folder\<close> is created by \<open>MemoryStorage.GetFolder\<close> only, once per path, and its \<open>Name\<close>,
  \<open>Path\<close> and \<open>Parent\<close> never change afterwards. The pointer is therefore the value of these three
  fields, the parent chain included; \<open>None\<close> is the nil parent of a root. The fields that are
  mutated (\<open>Folders\<close>, \<open>files\<close>, \<open>fileCount\<close>) are kept in the store of folder objects of the
  storage below. \<open>fileCountCache\<close> memoises \<open>GetFileCount\<close> and is cleared up the parent chain
  by every change; the model recomputes the number instead.
\<close>

datatype Folder = Folder (FolderName: string) (FolderPath: string) (FolderParent: "Folder option")

text \<open>A \<open>*File\<close> is an address into the store of file objects.\<close>

type_synonym ptr = nat

record File =
  Name :: string
  Path :: string
  Hash :: string
  Size :: int
  ModTime :: int
  Parent :: "Folder option"

record MatchedFileGroup =
  Files :: "ptr list"
  GroupHash :: string

record FolderData =
  Folders :: "(string \<times> Folder) list"
  files :: "(string \<times> ptr) list"
  fileCount :: int

section \<open>Errors\<close>

text \<open>
  \<open>ErrNotEmptyFolder\<close> is the sentinel of the package, \<open>Errorf\<close> an error made by
  \<open>fmt.Errorf\<close> without \<open>%w\<close>, \<open>Wrapf\<close> one that wraps another error with \<open>%w\<close>,
  \<open>OsError\<close> an error of the operating system and \<open>CtxErr\<close> the error of a cancelled
  context. \<open>errors.Is(err, ErrNotEmptyFolder)\<close> follows the chain of wrapped errors.
\<close>

datatype error =
    ErrNotEmptyFolder
  | Errorf string
  | Wrapf string error
  | OsError string
  | CtxErr

fun errors_Is_ErrNotEmptyFolder :: "error \<Rightarrow> bool" where
  "errors_Is_ErrNotEmptyFolder ErrNotEmptyFolder = True"
| "errors_Is_ErrNotEmptyFolder (Wrapf msg e) = errors_Is_ErrNotEmptyFolder e"
| "errors_Is_ErrNotEmptyFolder (Errorf msg) = False"
| "errors_Is_ErrNotEmptyFolder (OsError msg) = False"
| "errors_Is_ErrNotEmptyFolder CtxErr = False"

fun Error :: "error \<Rightarrow> string" where
  "Error ErrNotEmptyFolder = ''folder is not empty''"
| "Error (Errorf msg) = msg"
| "Error (Wrapf msg e) = msg @ '': '' @ Error e"
| "Error (OsError msg) = msg"
| "Error CtxErr = ''context canceled''"

section \<open>Storage\<close>

text \<open>
  \<open>MemoryStorage\<close> with the objects it points to: \<open>heap\<close> holds the \<open>File\<close> objects,
  \<open>nextPtr\<close> is the next fresh address, \<open>fobj\<close> holds the mutable fields of the folder
  objects. The three \<open>sync.Map\<close>s follow; \<open>folders\<close> and \<open>matchedFiles\<close> keep their keys
  in a list, \<open>hashMap\<close> is only looked up.
\<close>

record MemoryStorage =
  heap :: "ptr \<Rightarrow> File"
  nextPtr :: ptr
  fobj :: "Folder \<Rightarrow> FolderData"
  folders :: "(string \<times> Folder) list"
  matchedFiles :: "(string \<times> MatchedFileGroup) list"
  hashMap :: "string \<rightharpoonup> ptr"

definition emptyFolderData :: FolderData where
  "emptyFolderData = \<lparr>Folders = [], files = [], fileCount = 0\<rparr>"

definition zeroFile :: File where
  "zeroFile = \<lparr>Name = [], Path = [], Hash = [], Size = 0, ModTime = 0, Parent = None\<rparr>"

definition NewMemoryStorage :: MemoryStorage where
  "NewMemoryStorage =
     \<lparr>heap = (\<lambda>p. zeroFile), nextPtr = 0, fobj = (\<lambda>f. emptyFolderData),
      folders = [], matchedFiles = [], hashMap = Map.empty\<rparr>"

text \<open>\<open>&File{...}\<close>: a new object at a fresh address.\<close>

definition newFile :: "MemoryStorage \<Rightarrow> File \<Rightarrow> ptr \<times> MemoryStorage" where
  "newFile s f = (nextPtr s, s\<lparr>heap := (heap s)(nextPtr s := f), nextPtr := Suc (nextPtr s)\<rparr>)"

function GetFolder :: "MemoryStorage \<Rightarrow> string \<Rightarrow> error + (Folder \<times> MemoryStorage)" where
  "GetFolder s path =
     (case map_of (folders s) path of
        Some f \<Rightarrow> Inr (f, s)
      | None \<Rightarrow>
          if path = ''.'' \<or> path = ''/'' then
            (let rootFolder = Folder path path None
             in Inr (rootFolder,
                     s\<lparr>fobj := (fobj s)(rootFolder := emptyFolderData),
                       folders := AList.update path rootFolder (folders s)\<rparr>))
          else
            (case GetFolder s (Dir path) of
               Inl err \<Rightarrow> Inl err
             | Inr (parentFolder, s1) \<Rightarrow>
                 (let newFolder = Folder (Base path) path (Some parentFolder);
                      pd = fobj s1 parentFolder;
                      pd' = pd\<lparr>Folders := AList.update (Base path) newFolder (Folders pd)\<rparr>
                  in Inr (newFolder,
                          s1\<lparr>fobj := (fobj s1)(newFolder := emptyFolderData, parentFolder := pd'),
                             folders := AList.update path newFolder (folders s1)\<rparr>))))"
  by pat_completeness auto
termination
  by (relation "measure (\<lambda>(s, p). pathMeasure p)") (auto simp: Dir_measure)

declare GetFolder.simps [simp del]

definition Folder_AddFile :: "Folder \<Rightarrow> ptr \<Rightarrow> MemoryStorage \<Rightarrow> MemoryStorage" where
  "Folder_AddFile f file s =
     (let d = fobj s f;
          d' = d\<lparr>files := AList.update (Name (heap s file)) file (files d),
                 fileCount := fileCount d + 1\<rparr>
      in s\<lparr>fobj := (fobj s)(f := d'),
           heap := (heap s)(file := (heap s file)\<lparr>Parent := Some f\<rparr>)\<rparr>)"

definition Folder_RemoveFile :: "Folder \<Rightarrow> ptr \<Rightarrow> MemoryStorage \<Rightarrow> MemoryStorage" where
  "Folder_RemoveFile f file s =
     (let d = fobj s f;
          d' = d\<lparr>files := AList.delete (Name (heap s file)) (files d),
                 fileCount := fileCount d - 1\<rparr>
      in s\<lparr>fobj := (fobj s)(f := d'),
           heap := (heap s)(file := (heap s file)\<lparr>Parent := None\<rparr>)\<rparr>)"

definition AddFile :: "MemoryStorage \<Rightarrow> ptr \<Rightarrow> error option \<times> MemoryStorage" where
  "AddFile s file =
     (case GetFolder s (Dir (Path (heap s file))) of
        Inl err \<Rightarrow> (Some err, s)
      | Inr (parentFolder, s1) \<Rightarrow>
          (let s2 = Folder_AddFile parentFolder file s1;
               h = Hash (heap s2 file)
           in case hashMap s2 h of
                None \<Rightarrow> (None, s2\<lparr>hashMap := (hashMap s2)(h \<mapsto> file)\<rparr>)
              | Some matchedFile \<Rightarrow>
                  (case map_of (matchedFiles s2) h of
                     Some g \<Rightarrow>
                       (None, s2\<lparr>matchedFiles :=
                                  AList.update h (g\<lparr>Files := Files g @ [file]\<rparr>) (matchedFiles s2)\<rparr>)
                   | None \<Rightarrow>
                       (None, s2\<lparr>matchedFiles :=
                                  AList.update h \<lparr>Files = [file, matchedFile], GroupHash = h\<rparr>
                                    (matchedFiles s2)\<rparr>))))"

definition RemoveFile :: "MemoryStorage \<Rightarrow> ptr \<Rightarrow> error option \<times> MemoryStorage" where
  "RemoveFile s file =
     (case GetFolder s (Dir (Path (heap s file))) of
        Inl err \<Rightarrow> (Some err, s)
      | Inr (parentFolder, s1) \<Rightarrow>
          (let s2 = Folder_RemoveFile parentFolder file s1;
               h = Hash (heap s2 file)
           in case map_of (matchedFiles s2) h of
                Some pair \<Rightarrow>
                  (let fs = filter (\<lambda>f. f \<noteq> file) (Files pair) in
                   if length fs = 0 then
                     (Some (Errorf (''internal error: matched file group became empty for hash '' @ h)),
                      s2\<lparr>matchedFiles := AList.delete h (matchedFiles s2),
                         hashMap := (hashMap s2)(h := None)\<rparr>)
                   else if length fs = 1 then
                     (None, s2\<lparr>matchedFiles := AList.delete h (matchedFiles s2),
                               hashMap := (hashMap s2)(h \<mapsto> hd fs)\<rparr>)
                   else
                     (None, s2\<lparr>matchedFiles := AList.update h (pair\<lparr>Files := fs\<rparr>) (matchedFiles s2),
                               hashMap := (hashMap s2)(h \<mapsto> hd fs)\<rparr>))
              | None \<Rightarrow> (None, s2\<lparr>hashMap := (hashMap s2)(h := None)\<rparr>)))"

text \<open>
  \<open>sync.Map.Range\<close> and the \<open>range\<close> over a Go map visit the keys in an order that the
  language leaves open. \<open>ord\<close> is that order: it is given the keys and returns them in the
  order of the visit.
\<close>

definition rangeOrder :: "(string list \<Rightarrow> string list) \<Rightarrow> bool" where
  "rangeOrder ord = (\<forall>ks. mset (ord ks) = mset ks)"

definition GetMatchedFiles ::
  "(string list \<Rightarrow> string list) \<Rightarrow> MemoryStorage \<Rightarrow> MatchedFileGroup list" where
  "GetMatchedFiles ord s = List.map_filter (map_of (matchedFiles s)) (ord (map fst (matchedFiles s)))"

definition GetFiles :: "MemoryStorage \<Rightarrow> Folder \<Rightarrow> ptr list" where
  "GetFiles s f = map snd (files (fobj s f))"

definition GetFolders :: "MemoryStorage \<Rightarrow> Folder \<Rightarrow> Folder list" where
  "GetFolders s f = map snd (Folders (fobj s f))"

text \<open>
  \<open>GetFileCount\<close> adds the files of the folder and of the folders below it. The recursion
  goes down the \<open>Folders\<close> maps; \<open>n\<close> bounds its depth, and a tree of folders is never
  deeper than the number of folders of the storage.
\<close>

fun GetFileCountDepth :: "nat \<Rightarrow> MemoryStorage \<Rightarrow> Folder \<Rightarrow> int" where
  "GetFileCountDepth 0 s f = fileCount (fobj s f)"
| "GetFileCountDepth (Suc n) s f =
     fileCount (fobj s f) + sum_list (map (\<lambda>(name, g). GetFileCountDepth n s g) (Folders (fobj s f)))"

definition GetFileCount :: "MemoryStorage \<Rightarrow> Folder \<Rightarrow> int" where
  "GetFileCount s f = GetFileCountDepth (length (folders s)) s f"

section \<open>The filesystem under the root\<close>

text \<open>
  The tasks reach the filesystem through the methods of \<open>*os.Root\<close>. What the operating
  system answers and does is left open: \<open>ops\<close> gives, for a state \<open>'fs\<close> of the filesystem, the
  error of each call (\<open>None\<close> is \<open>nil\<close>) and the state after it.
\<close>

record FileInfo =
  InfoName :: string
  IsDir :: bool

record 'fs RootOps =
  Open :: "'fs \<Rightarrow> string \<Rightarrow> error option"
  Readdir :: "'fs \<Rightarrow> string \<Rightarrow> error + FileInfo list"
  Stat :: "'fs \<Rightarrow> string \<Rightarrow> error option"
  Rename :: "'fs \<Rightarrow> string \<Rightarrow> string \<Rightarrow> error option \<times> 'fs"
  Remove :: "'fs \<Rightarrow> string \<Rightarrow> error option \<times> 'fs"
  RemoveAll :: "'fs \<Rightarrow> string \<Rightarrow> error option \<times> 'fs"

section \<open>Tasks\<close>

datatype FileAction = Move | Delete | MoveFolder | DeleteFolder | DeleteEmptyFolder

text \<open>The three pointers of a task may be nil.\<close>

record FileActionTask =
  Action :: FileAction
  TaskFile :: "ptr option"
  TaskFolder :: "Folder option"
  TargetFolder :: "Folder option"
  TargetName :: string
  NotDuplicate :: bool

text \<open>\<open>FileActionTask.String\<close>; \<open>None\<close> is the panic of a nil pointer.\<close>

definition String :: "MemoryStorage \<Rightarrow> FileActionTask \<Rightarrow> string option" where
  "String s f =
     (case Action f of
        Move \<Rightarrow>
          (case (TaskFile f, TargetFolder f) of
             (Some file, Some tf) \<Rightarrow>
               (let targetName = (if TargetName f = [] then Name (heap s file) else TargetName f)
                in Some (''move '' @ Path (heap s file) @ '' to '' @ Join (FolderPath tf) targetName))
           | _ \<Rightarrow> None)
      | Delete \<Rightarrow>
          (case TaskFile f of
             Some file \<Rightarrow> Some (''delete '' @ Path (heap s file))
           | None \<Rightarrow> None)
      | MoveFolder \<Rightarrow>
          (case (TaskFolder f, TargetFolder f) of
             (Some fo, Some tf) \<Rightarrow>
               Some (''move folder '' @ FolderPath fo @ '' to '' @ FolderPath tf)
           | _ \<Rightarrow> None)
      | DeleteFolder \<Rightarrow>
          (case TaskFolder f of
             Some fo \<Rightarrow> Some (''Delete folder: '' @ FolderPath fo)
           | None \<Rightarrow> None)
      | DeleteEmptyFolder \<Rightarrow>
          (case TaskFolder f of
             Some fo \<Rightarrow> Some (''Delete empty folder: '' @ FolderPath fo)
           | None \<Rightarrow> None))"

text \<open>The loop over the entries of \<open>RemoveEmptyFolder\<close>; its value is \<open>isEmpty\<close>.\<close>

fun isEmpty :: "FileInfo list \<Rightarrow> bool" where
  "isEmpty [] = True"
| "isEmpty (entry # entries) =
     (if InfoName entry = ''.'' \<or> InfoName entry = ''..'' then isEmpty entries
      else if IsDir entry then False
      else if \<not> HasPrefix (InfoName entry) ''.'' then False
      else isEmpty entries)"

definition RemoveEmptyFolder :: "'fs RootOps \<Rightarrow> 'fs \<Rightarrow> string \<Rightarrow> error option \<times> 'fs" where
  "RemoveEmptyFolder root fs path =
     (case Open root fs path of
        Some err \<Rightarrow> (Some (Wrapf (''failed to open dir '' @ path) err), fs)
      | None \<Rightarrow>
          (case Readdir root fs path of
             Inl err \<Rightarrow> (Some (Wrapf (''failed to read dir '' @ path) err), fs)
           | Inr entries \<Rightarrow>
               if \<not> isEmpty entries then (Some ErrNotEmptyFolder, fs)
               else
                 (case RemoveAll root fs path of
                    (Some err, fs') \<Rightarrow> (Some (Wrapf (''failed to remove empty folder '' @ path) err), fs')
                  | (None, fs') \<Rightarrow> (None, fs'))))"

text \<open>
  \<open>ExecuteFileActionTask\<close> returns the error, the storage and the filesystem after the task;
  \<open>None\<close> is the panic of a nil pointer, which happens before the task touches anything.
\<close>

definition ExecuteFileActionTask ::
  "MemoryStorage \<Rightarrow> 'fs RootOps \<Rightarrow> 'fs \<Rightarrow> FileActionTask
     \<Rightarrow> (error option \<times> MemoryStorage \<times> 'fs) option" where
  "ExecuteFileActionTask storage root fs task =
     (case Action task of
        Move \<Rightarrow>
          (case (TargetFolder task, TaskFile task) of
             (Some tf, Some file) \<Rightarrow>
               (let exists = (Open root fs (Join (FolderPath tf) (TargetName task)) = None);
                    targetName = (if TargetName task = [] then Name (heap storage file)
                                  else TargetName task)
                in case Rename root fs (Path (heap storage file)) (Join (FolderPath tf) targetName) of
                     (Some err, fs') \<Rightarrow> Some (Some err, storage, fs')
                   | (None, fs') \<Rightarrow>
                       (case RemoveFile storage file of
                          (Some err, storage') \<Rightarrow> Some (Some err, storage', fs')
                        | (None, storage') \<Rightarrow>
                            if \<not> exists then
                              (let (p, storage'') =
                                     newFile storage'
                                       \<lparr>Name = targetName,
                                        Path = Join (FolderPath tf) targetName,
                                        Hash = Hash (heap storage' file),
                                        Size = Size (heap storage' file),
                                        ModTime = ModTime (heap storage' file),
                                        Parent = None\<rparr>
                               in Some (None, snd (AddFile storage'' p), fs'))
                            else Some (None, storage', fs')))
           | _ \<Rightarrow> None)
      | Delete \<Rightarrow>
          (case TaskFile task of
             None \<Rightarrow> None
           | Some file \<Rightarrow>
               (case Remove root fs (Path (heap storage file)) of
                  (Some err, fs') \<Rightarrow> Some (Some err, storage, fs')
                | (None, fs') \<Rightarrow>
                    (case RemoveFile storage file of (err, storage') \<Rightarrow> Some (err, storage', fs'))))
      | MoveFolder \<Rightarrow>
          (case TaskFolder task of
             None \<Rightarrow> Some (Some (Errorf ''folder is nil''), storage, fs)
           | Some fo \<Rightarrow>
               (case TargetFolder task of
                  None \<Rightarrow> None
                | Some tf \<Rightarrow>
                    (let targetPath = Join (FolderPath tf) (FolderName fo) in
                     if Stat root fs targetPath = None then
                       Some (Some (Errorf (''target folder '' @ targetPath @ '' already exists'')),
                             storage, fs)
                     else
                       (case Rename root fs (FolderPath fo) targetPath of
                          (err, fs') \<Rightarrow> Some (err, storage, fs')))))
      | DeleteFolder \<Rightarrow>
          (case TaskFolder task of
             None \<Rightarrow> Some (Some (Errorf ''folder is nil''), storage, fs)
           | Some fo \<Rightarrow>
               (case Remove root fs (FolderPath fo) of (err, fs') \<Rightarrow> Some (err, storage, fs')))
      | DeleteEmptyFolder \<Rightarrow>
          (case TaskFolder task of
             None \<Rightarrow> Some (Some (Errorf ''folder is nil''), storage, fs)
           | Some fo \<Rightarrow>
               (case RemoveEmptyFolder root fs (FolderPath fo) of
                  (err, fs') \<Rightarrow> Some (err, storage, fs'))))"

section \<open>Executor\<close>

record ProgressUpdate =
  Current :: int
  Total :: int
  Message :: string

datatype LogEntry = Info string | LogError string

text \<open>
  The state of a run: the storage, the filesystem, the buffer of the progress channel (capacity
  10), the log of the logger, and the field \<open>done\<close> (\<open>isDone\<close>). Two histories are kept beside them to
  state what a reader of the channel sees: \<open>received\<close>, the records the reader has taken
  so far, and \<open>dropped\<close>, the records whose send found the buffer full.
\<close>

record 'fs ExecState =
  storage :: MemoryStorage
  rootFS :: "'fs"
  progressChan :: "ProgressUpdate list"
  received :: "ProgressUpdate list"
  dropped :: "ProgressUpdate list"
  logged :: "LogEntry list"
  isDone :: bool

text \<open>
  What the run does not decide: \<open>ctxDone i\<close> tells whether the context is found done at the
  check before task \<open>i\<close>, \<open>reads i\<close> how many records the reader of the channel takes between
  the sends of task \<open>i - 1\<close> and task \<open>i\<close>, \<open>hasLogger\<close> whether \<open>e.logger\<close> is not nil.
\<close>

record ExecEnv =
  ctxDone :: "nat \<Rightarrow> bool"
  reads :: "nat \<Rightarrow> nat"
  hasLogger :: bool

datatype ExecResult = Panic | Return "error option"

definition receive :: "nat \<Rightarrow> 'fs ExecState \<Rightarrow> 'fs ExecState" where
  "receive n st =
     st\<lparr>received := received st @ take n (progressChan st),
        progressChan := drop n (progressChan st)\<rparr>"

definition send :: "ProgressUpdate \<Rightarrow> 'fs ExecState \<Rightarrow> 'fs ExecState" where
  "send u st =
     (if length (progressChan st) < 10 then st\<lparr>progressChan := progressChan st @ [u]\<rparr>
      else st\<lparr>dropped := dropped st @ [u]\<rparr>)"

definition logResult :: "bool \<Rightarrow> error option \<Rightarrow> string \<Rightarrow> 'fs ExecState \<Rightarrow> 'fs ExecState" where
  "logResult lg err message st =
     (if lg then
        (case err of
           Some e \<Rightarrow> st\<lparr>logged := logged st @ [LogError (Error e)]\<rparr>
         | None \<Rightarrow> st\<lparr>logged := logged st @ [Info (''Executed task: '' @ message)]\<rparr>)
      else st)"

text \<open>
  What \<open>Execute\<close> does after a task has returned: the reader takes its records, the
  progress record of the task is sent without blocking, and the result is logged.
\<close>

definition afterTask ::
  "ExecEnv \<Rightarrow> int \<Rightarrow> nat \<Rightarrow> error option \<Rightarrow> string \<Rightarrow> 'fs ExecState \<Rightarrow> 'fs ExecState" where
  "afterTask env totalTasks i err message st =
     logResult (hasLogger env) err message
       (send \<lparr>Current = int i + 1, Total = totalTasks, Message = message\<rparr>
          (receive (reads env i) st))"

text \<open>The loop of \<open>Execute\<close> from task \<open>i\<close> on; \<open>tasks\<close> are the tasks still to run.\<close>

fun ExecuteLoop ::
  "'fs RootOps \<Rightarrow> ExecEnv \<Rightarrow> int \<Rightarrow> nat \<Rightarrow> FileActionTask list \<Rightarrow> 'fs ExecState
     \<Rightarrow> ExecResult \<times> 'fs ExecState" where
  "ExecuteLoop root env totalTasks i [] st = (Return None, st\<lparr>isDone := True\<rparr>)"
| "ExecuteLoop root env totalTasks i (task # tasks) st =
     (if ctxDone env i then (Return (Some CtxErr), st)
      else
        (case ExecuteFileActionTask (storage st) root (rootFS st) task of
           None \<Rightarrow> (Panic, st)
         | Some (err, storage', fs') \<Rightarrow>
             (case String storage' task of
                None \<Rightarrow> (Panic, st\<lparr>storage := storage', rootFS := fs'\<rparr>)
              | Some message \<Rightarrow>
                  (let notEmpty = (case err of None \<Rightarrow> False
                                   | Some e \<Rightarrow> errors_Is_ErrNotEmptyFolder e);
                       message' = (if notEmpty then message @ '' (folder is not empty)'' else message);
                       err' = (if notEmpty then None else err);
                       st' = afterTask env totalTasks i err' message'
                               (st\<lparr>storage := storage', rootFS := fs'\<rparr>)
                   in if err' \<noteq> None then (Return err', st')
                      else ExecuteLoop root env totalTasks (Suc i) tasks st'))))"

text \<open>\<open>openRoot\<close> is the error of \<open>os.OpenRoot(e.rootPath)\<close>.\<close>

definition Execute ::
  "error option \<Rightarrow> 'fs RootOps \<Rightarrow> ExecEnv \<Rightarrow> FileActionTask list \<Rightarrow> 'fs ExecState
     \<Rightarrow> ExecResult \<times> 'fs ExecState" where
  "Execute openRoot root env tasks st =
     (case openRoot of
        Some err \<Rightarrow> (Return (Some err), st)
      | None \<Rightarrow> ExecuteLoop root env (int (length tasks)) 0 tasks st)"

text \<open>All the records a reader gets when it goes on reading after the run.\<close>

definition allReceived :: "'fs ExecState \<Rightarrow> ProgressUpdate list" where
  "allReceived st = received st @ progressChan st"

section \<open>Scanner\<close>

text \<open>
  The tree that \<open>fs.WalkDir\<close> walks. A file carries what opening it, \<open>Stat\<close> and the hash
  give: the error that the callback returns for it (\<open>failed to open file\<close>, \<open>failed to stat
  file\<close> or \<open>failed to hash file\<close>, wrapping the cause) or the hash, the size and the
  modification time. A directory carries the error of reading it or its entries, in the order
  \<open>WalkDir\<close> visits them (by name).
\<close>

datatype Node =
    RegFile string "error + (string \<times> int \<times> int)"
  | Directory string "error + Node list"

fun NodeName :: "Node \<Rightarrow> string" where
  "NodeName (RegFile name r) = name"
| "NodeName (Directory name r) = name"

text \<open>\<open>path.Join(dir, name)\<close> of \<open>WalkDir\<close> for the path of an entry.\<close>

definition childPath :: "string \<Rightarrow> string \<Rightarrow> string" where
  "childPath dir name = Join dir name"

text \<open>
  The callback of \<open>Scanner.Scan\<close> on one entry and the walk below it. The state is the
  number of callbacks made so far, which \<open>ctxDone\<close> reads, and the storage. \<open>WalkDir\<close>
  calls the callback on a directory, reads the directory, calls the callback again with the
  error when the read failed, and walks the entries otherwise; the callback never returns
  \<open>SkipDir\<close>.
\<close>

fun walk ::
  "(nat \<Rightarrow> bool) \<Rightarrow> string \<Rightarrow> Node \<Rightarrow> nat \<times> MemoryStorage
     \<Rightarrow> error option \<times> nat \<times> MemoryStorage"
and walkEntries ::
  "(nat \<Rightarrow> bool) \<Rightarrow> string \<Rightarrow> Node list \<Rightarrow> nat \<times> MemoryStorage
     \<Rightarrow> error option \<times> nat \<times> MemoryStorage" where
  "walk ctx path (RegFile name r) (n, s) =
     (if ctx n then (Some CtxErr, Suc n, s)
      else if name \<noteq> [] \<and> hd name = CHR ''.'' then (None, Suc n, s)
      else
        (case r of
           Inl err \<Rightarrow> (Some err, Suc n, s)
         | Inr (hash, sz, modTime) \<Rightarrow>
             (let (p, s') = newFile s \<lparr>Name = name, Path = path, Hash = hash, Size = sz,
                                      ModTime = modTime, Parent = None\<rparr>
              in (None, Suc n, snd (AddFile s' p)))))"
| "walk ctx path (Directory name r) (n, s) =
     (if ctx n then (Some CtxErr, Suc n, s)
      else
        (case r of
           Inl err \<Rightarrow> (if ctx (Suc n) then (Some CtxErr, Suc (Suc n), s)
                       else (Some err, Suc (Suc n), s))
         | Inr entries \<Rightarrow> walkEntries ctx path entries (Suc n, s)))"
| "walkEntries ctx dir [] (n, s) = (None, n, s)"
| "walkEntries ctx dir (e # es) (n, s) =
     (case walk ctx (childPath dir (NodeName e)) e (n, s) of
        (Some err, n', s') \<Rightarrow> (Some err, n', s')
      | (None, n', s') \<Rightarrow> walkEntries ctx dir es (n', s'))"

text \<open>
  \<open>Scanner.Scan\<close> over the roots of \<open>s.Path\<close>: each root is the error of \<open>os.OpenRoot\<close>
  or the tree under it, whose top is the directory \<open>.\<close>.
\<close>

fun Scan ::
  "(nat \<Rightarrow> bool) \<Rightarrow> (string \<times> (error + Node)) list \<Rightarrow> nat \<times> MemoryStorage
     \<Rightarrow> error option \<times> nat \<times> MemoryStorage" where
  "Scan ctx [] (n, s) = (None, n, s)"
| "Scan ctx ((path, root) # rest) (n, s) =
     (case root of
        Inl err \<Rightarrow> (Some (Wrapf (''failed to open root directory '' @ path) err), n, s)
      | Inr tree \<Rightarrow>
          (case walk ctx ''.'' tree (n, s) of
             (Some err, n', s') \<Rightarrow> (Some (Wrapf (''failed to walk directory '' @ path) err), n', s')
           | (None, n', s') \<Rightarrow> Scan ctx rest (n', s')))"

text \<open>
  The files of a tree with their paths, in the order of the walk, and those among them that the
  claim says are added: the ones whose own name does not start with a dot.
\<close>

fun regularFiles :: "string \<Rightarrow> Node \<Rightarrow> (string \<times> string \<times> (error + (string \<times> int \<times> int))) list"
and regularFilesList :: "string \<Rightarrow> Node list \<Rightarrow> (string \<times> string \<times> (error + (string \<times> int \<times> int))) list" where
  "regularFiles path (RegFile name r) = [(path, name, r)]"
| "regularFiles path (Directory name (Inl err)) = []"
| "regularFiles path (Directory name (Inr entries)) = regularFilesList path entries"
| "regularFilesList dir [] = []"
| "regularFilesList dir (e # es) =
     regularFiles (childPath dir (NodeName e)) e @ regularFilesList dir es"

definition notHidden :: "string \<times> string \<times> (error + (string \<times> int \<times> int)) \<Rightarrow> bool" where
  "notHidden f = (case f of (path, name, r) \<Rightarrow> \<not> (name \<noteq> [] \<and> hd name = CHR ''.''))"

text \<open>Adding one scanned file to the storage, as the callback does.\<close>

definition addScanned ::
  "MemoryStorage \<Rightarrow> string \<times> string \<times> (error + (string \<times> int \<times> int)) \<Rightarrow> MemoryStorage" where
  "addScanned s f =
     (case f of
        (path, name, Inr (hash, sz, modTime)) \<Rightarrow>
          (let (p, s') = newFile s \<lparr>Name = name, Path = path, Hash = hash, Size = sz,
                                   ModTime = modTime, Parent = None\<rparr>
           in snd (AddFile s' p))
      | (path, name, Inl err) \<Rightarrow> s)"

text \<open>A tree is readable when no directory and no file that is not hidden gives an error.\<close>

fun readable :: "Node \<Rightarrow> bool"
and readableList :: "Node list \<Rightarrow> bool" where
  "readable (RegFile name r) = ((name \<noteq> [] \<and> hd name = CHR ''.'') \<or> (\<exists>v. r = Inr v))"
| "readable (Directory name (Inl err)) = False"
| "readable (Directory name (Inr entries)) = readableList entries"
| "readableList [] = True"
| "readableList (e # es) = (readable e \<and> readableList es)"

section \<open>A small filesystem for the examples\<close>

text \<open>
  The paths that exist under the root, each with the flag of a directory. A call fails when its
  path does not exist; \<open>Remove\<close> fails on a directory that has entries; \<open>Rename\<close> needs the
  directory of the new path.
\<close>

type_synonym SimFS = "(string \<times> bool) list"

definition simExists :: "SimFS \<Rightarrow> string \<Rightarrow> bool" where
  "simExists fs p = (p = ''.'' \<or> p \<in> fst ` set fs)"

definition simOps :: "SimFS RootOps" where
  "simOps =
     \<lparr>Open = (\<lambda>fs p. if simExists fs p then None else Some (OsError ''no such file or directory'')),
      Readdir = (\<lambda>fs p. Inr (map (\<lambda>(q, d). \<lparr>InfoName = Base q, IsDir = d\<rparr>)
                               (filter (\<lambda>(q, d). Dir q = p) fs))),
      Stat = (\<lambda>fs p. if simExists fs p then None else Some (OsError ''no such file or directory'')),
      Rename = (\<lambda>fs old new.
                  if \<not> (simExists fs old \<and> simExists fs (Dir new))
                  then (Some (OsError ''no such file or directory''), fs)
                  else (None, map (\<lambda>(q, d). if q = old then (new, d) else (q, d))
                                (filter (\<lambda>(q, d). q \<noteq> new) fs))),
      Remove = (\<lambda>fs p.
                  if \<not> simExists fs p then (Some (OsError ''no such file or directory''), fs)
                  else if \<exists>(q, d) \<in> set fs. Dir q = p then (Some (OsError ''directory not empty''), fs)
                  else (None, filter (\<lambda>(q, d). q \<noteq> p) fs)),
      RemoveAll = (\<lambda>fs p. (None, filter (\<lambda>(q, d). q \<noteq> p \<and> \<not> HasPrefix q (p @ ''/'')) fs))\<rparr>"

definition newExecState :: "MemoryStorage \<Rightarrow> 'fs \<Rightarrow> 'fs ExecState" where
  "newExecState s fs =
     \<lparr>storage = s, rootFS = fs, progressChan = [], received = [], dropped = [], logged = [],
      isDone = False\<rparr>"

section \<open>Similarity pairs\<close>

record FolderSimilarity =
  EmbFolder :: Folder
  FileCount :: int
  DuplicateFileCount :: int
  DuplicateFiles :: "(string \<times> ptr) list"

text \<open>
  The value \<open>[2]*FolderSimilarity\<close> of the pair map holds the only pointers to its two
  objects; a \<open>*FolderSimilarity\<close> is the key of its pair and the index of its side.
  \<open>TargetFolder\<close> points at the other side of the same pair.
\<close>

type_synonym FolderPair = "FolderSimilarity \<times> FolderSimilarity"
type_synonym PairMap = "(string \<times> FolderPair) list"
type_synonym SimRef = "string \<times> nat"

definition side :: "FolderPair \<Rightarrow> nat \<Rightarrow> FolderSimilarity" where
  "side p i = (if i = 0 then fst p else snd p)"

definition folderPairKey :: "string \<Rightarrow> string \<Rightarrow> string" where
  "folderPairKey path1 path2 =
     (if path1 > path2 then path2 @ '':'' @ path1 else path1 @ '':'' @ path2)"

definition getFolderSimilarity ::
  "string \<Rightarrow> string \<Rightarrow> PairMap \<Rightarrow> error + (SimRef \<times> SimRef)" where
  "getFolderSimilarity path1 path2 pairs =
     (let key = folderPairKey path1 path2 in
      case map_of pairs key of
        None \<Rightarrow> Inl (Errorf ''folder pair not found'')
      | Some pair \<Rightarrow>
          if FolderPath (EmbFolder (side pair 0)) = path1 then Inr ((key, 0), (key, 1))
          else Inr ((key, 1), (key, 0)))"

definition deref :: "PairMap \<Rightarrow> SimRef \<Rightarrow> FolderSimilarity option" where
  "deref pairs r = map_option (\<lambda>p. side p (snd r)) (map_of pairs (fst r))"

section \<open>Matched file pairs of two folders\<close>

text \<open>
  The two-pointer loop of \<open>GetMatchedFilePairs\<close> over the two sorted slices; \<open>h\<close> reads the
  \<open>Hash\<close> of a file. The three result slices are appended to in loop order.
\<close>

fun mergeLoop ::
  "(ptr \<Rightarrow> 'k::linorder) \<Rightarrow> ptr list \<Rightarrow> ptr list \<Rightarrow> (ptr \<times> ptr) list \<times> ptr list \<times> ptr list" where
  "mergeLoop h [] [] = ([], [], [])"
| "mergeLoop h [] (y # ys) =
     (case mergeLoop h [] ys of (m, l, r) \<Rightarrow> (m, l, y # r))"
| "mergeLoop h (x # xs) [] =
     (case mergeLoop h xs [] of (m, l, r) \<Rightarrow> (m, x # l, r))"
| "mergeLoop h (x # xs) (y # ys) =
     (if h x = h y then
        (case mergeLoop h xs ys of (m, l, r) \<Rightarrow> ((x, y) # m, l, r))
      else if h x < h y then
        (case mergeLoop h xs (y # ys) of (m, l, r) \<Rightarrow> (m, x # l, r))
      else
        (case mergeLoop h (x # xs) ys of (m, l, r) \<Rightarrow> (m, l, y # r)))"

text \<open>
  \<open>sort.Slice\<close> is not stable and \<open>sync.Map.Range\<close>, which \<open>GetFiles\<close> uses, fixes no
  order, so the sorted slice is some permutation of the folder's files that ascends by \<open>Hash\<close>:
  \<open>srt\<close> is that sort.
\<close>

definition GetMatchedFilePairs ::
  "((ptr \<Rightarrow> string) \<Rightarrow> ptr list \<Rightarrow> ptr list) \<Rightarrow> MemoryStorage \<Rightarrow>
     FolderSimilarity \<Rightarrow> FolderSimilarity \<Rightarrow> (ptr \<times> ptr) list \<times> ptr list \<times> ptr list" where
  "GetMatchedFilePairs srt s folder1 folder2 =
     (let files1 = srt (\<lambda>p. Hash (heap s p)) (GetFiles s (EmbFolder folder1));
          files2 = srt (\<lambda>p. Hash (heap s p)) (GetFiles s (EmbFolder folder2))
      in mergeLoop (\<lambda>p. Hash (heap s p)) files1 files2)"

definition sortSlice :: "((ptr \<Rightarrow> string) \<Rightarrow> ptr list \<Rightarrow> ptr list) \<Rightarrow> bool" where
  "sortSlice srt = (\<forall>h xs. mset (srt h xs) = mset xs \<and> sorted (map h (srt h xs)))"

section \<open>Similarity checker\<close>

record SimilarityChecker =
  similarityFolderPairs :: PairMap
  similarityFolderMap :: "string \<rightharpoonup> string list"

text \<open>The struct literal of a new side of a pair, with no duplicate files yet.\<close>

definition newSide :: "MemoryStorage \<Rightarrow> Folder \<Rightarrow> FolderSimilarity" where
  "newSide s f =
     \<lparr>EmbFolder = f, FileCount = GetFileCount s f, DuplicateFileCount = 0, DuplicateFiles = []\<rparr>"

text \<open>
  \<open>getDuplicatedFolderPair\<close> returns the pointers to the two sides and the map, to which the
  pair was added when its key was missing.
\<close>

definition getDuplicatedFolderPair ::
  "MemoryStorage \<Rightarrow> Folder \<Rightarrow> Folder \<Rightarrow> PairMap \<Rightarrow> (SimRef \<times> SimRef) \<times> PairMap" where
  "getDuplicatedFolderPair s folder1 folder2 pairs =
     (let key = folderPairKey (FolderPath folder1) (FolderPath folder2) in
      case map_of pairs key of
        None \<Rightarrow> (((key, 0), (key, 1)), pairs @ [(key, (newSide s folder1, newSide s folder2))])
      | Some pair \<Rightarrow>
          (if FolderPath (EmbFolder (side pair 0)) = FolderPath folder1 then ((key, 0), (key, 1))
           else ((key, 1), (key, 0)),
           pairs))"

text \<open>A write through a \<open>*FolderSimilarity\<close>: \<open>g\<close> changes the side that \<open>r\<close> points to.\<close>

definition updSide :: "SimRef \<Rightarrow> (FolderSimilarity \<Rightarrow> FolderSimilarity) \<Rightarrow> PairMap \<Rightarrow> PairMap" where
  "updSide r g pairs =
     map (\<lambda>(k, p). if k = fst r
                     then (k, if snd r = 0 then (g (fst p), snd p) else (fst p, g (snd p)))
                     else (k, p)) pairs"

text \<open>A read of \<open>DuplicateFileCount\<close> through a pointer, which always points into the map.\<close>

definition countOf :: "PairMap \<Rightarrow> SimRef \<Rightarrow> int" where
  "countOf pairs r = (case deref pairs r of None \<Rightarrow> 0 | Some f \<Rightarrow> DuplicateFileCount f)"

definition addDuplicate :: "SimRef \<Rightarrow> string \<Rightarrow> ptr \<Rightarrow> PairMap \<Rightarrow> PairMap" where
  "addDuplicate r name file pairs =
     updSide r
       (\<lambda>f. if map_of (DuplicateFiles f) name = None
             then f\<lparr>DuplicateFiles := DuplicateFiles f @ [(name, file)],
                    DuplicateFileCount := DuplicateFileCount f + 1\<rparr>
             else f)
       pairs"

text \<open>
  The body of the two inner loops over the files of a matched group, for the files at \<open>i\<close> and
  \<open>j\<close>; \<open>None\<close> is the panic on a file whose \<open>Parent\<close> is nil.
\<close>

definition matchStep :: "MemoryStorage \<Rightarrow> ptr \<times> ptr \<Rightarrow> PairMap \<Rightarrow> PairMap option" where
  "matchStep s ij pairs =
     (case (Parent (heap s (fst ij)), Parent (heap s (snd ij))) of
        (Some parent1, Some parent2) \<Rightarrow>
          (case getDuplicatedFolderPair s parent1 parent2 pairs of
             ((folder1, folder2), pairs1) \<Rightarrow>
               Some (addDuplicate folder2 (Name (heap s (snd ij))) (snd ij)
                      (addDuplicate folder1 (Name (heap s (fst ij))) (fst ij) pairs1)))
      | _ \<Rightarrow> None)"

text \<open>The pairs \<open>(Files[i], Files[j])\<close> with \<open>i < j\<close>, in the order of the two loops.\<close>

fun filePairs :: "ptr list \<Rightarrow> (ptr \<times> ptr) list" where
  "filePairs [] = []"
| "filePairs (x # xs) = map (Pair x) xs @ filePairs xs"

text \<open>A loop whose body may panic.\<close>

fun foldOpt :: "('a \<Rightarrow> 'b \<Rightarrow> 'b option) \<Rightarrow> 'a list \<Rightarrow> 'b \<Rightarrow> 'b option" where
  "foldOpt f [] b = Some b"
| "foldOpt f (x # xs) b = (case f x b of None \<Rightarrow> None | Some b' \<Rightarrow> foldOpt f xs b')"

function SplitPathLoop :: "string \<Rightarrow> string list \<Rightarrow> string list" where
  "SplitPathLoop path output =
     (if path \<noteq> ''.'' \<and> path \<noteq> ''/'' then
        (let folder = Base (Dir path) in
         SplitPathLoop (Dir path)
           (if folder \<noteq> ''.'' \<and> folder \<noteq> ''/'' then folder # output else output))
      else output)"
  by pat_completeness auto
termination
  by (relation "measure (\<lambda>(p, out). pathMeasure p)") (auto simp: Dir_measure)

declare SplitPathLoop.simps [simp del]

definition SplitPath :: "string \<Rightarrow> string list" where
  "SplitPath path = SplitPathLoop path [Base path]"

text \<open>The loop that joins the common leading elements of the two split paths.\<close>

fun commonParentLoop :: "string \<Rightarrow> string list \<Rightarrow> string list \<Rightarrow> string" where
  "commonParentLoop commonParent (x # xs) (y # ys) =
     (if x \<noteq> y then commonParent else commonParentLoop (Join commonParent x) xs ys)"
| "commonParentLoop commonParent xs ys = commonParent"

definition addCount :: "SimRef \<Rightarrow> int \<Rightarrow> PairMap \<Rightarrow> PairMap" where
  "addCount r n pairs = updSide r (\<lambda>f. f\<lparr>DuplicateFileCount := DuplicateFileCount f + n\<rparr>) pairs"

text \<open>
  The two loops of \<open>calculateParentFolderSimilarity\<close> up the parent chains. The current folder
  of a loop is nil after the root, and the test of the loop then panics (\<open>None\<close>).
\<close>

fun innerLoop ::
  "MemoryStorage \<Rightarrow> SimRef \<Rightarrow> SimRef \<Rightarrow> string \<Rightarrow> Folder \<Rightarrow> Folder option \<Rightarrow> PairMap
     \<Rightarrow> PairMap option" where
  "innerLoop s folder1 folder2 commonParent currentFolder1 None pairs = None"
| "innerLoop s folder1 folder2 commonParent currentFolder1 (Some (Folder name path parent)) pairs =
     (if path = commonParent then Some pairs
      else
        (case getDuplicatedFolderPair s currentFolder1 (Folder name path parent) pairs of
           ((f1, f2), pairs1) \<Rightarrow>
             (let pairs2 = (if f1 \<noteq> folder1 then addCount f1 (countOf pairs1 folder1) pairs1
                            else pairs1);
                  pairs3 = (if f2 \<noteq> folder2 then addCount f2 (countOf pairs2 folder2) pairs2
                            else pairs2)
              in innerLoop s folder1 folder2 commonParent currentFolder1 parent pairs3)))"

fun outerLoop ::
  "MemoryStorage \<Rightarrow> SimRef \<Rightarrow> SimRef \<Rightarrow> string \<Rightarrow> Folder option \<Rightarrow> Folder \<Rightarrow> PairMap
     \<Rightarrow> PairMap option" where
  "outerLoop s folder1 folder2 commonParent None start2 pairs = None"
| "outerLoop s folder1 folder2 commonParent (Some (Folder name path parent)) start2 pairs =
     (if path = commonParent then Some pairs
      else
        (case innerLoop s folder1 folder2 commonParent (Folder name path parent) (Some start2) pairs of
           None \<Rightarrow> None
         | Some pairs' \<Rightarrow> outerLoop s folder1 folder2 commonParent parent start2 pairs'))"

text \<open>
  \<open>calculateParentFolderSimilarity\<close> for the pair stored under \<open>key\<close>: \<open>folder1\<close> and
  \<open>folder2\<close> are the pointers to its two sides, which are never the same object.
\<close>

definition calculateParentFolderSimilarity ::
  "MemoryStorage \<Rightarrow> string \<Rightarrow> PairMap \<Rightarrow> PairMap option" where
  "calculateParentFolderSimilarity s key pairs =
     (case map_of pairs key of
        None \<Rightarrow> Some pairs
      | Some (folder1, folder2) \<Rightarrow>
          if FolderParent (EmbFolder folder1) = FolderParent (EmbFolder folder2) then Some pairs
          else
            (let parents = SplitPath (FolderPath (EmbFolder folder1));
                 parents2 = SplitPath (FolderPath (EmbFolder folder2));
                 commonParent = commonParentLoop ''.'' parents parents2
             in outerLoop s (key, 0) (key, 1) commonParent (Some (EmbFolder folder1))
                  (EmbFolder folder2) pairs))"

text \<open>The body of the loop that builds \<open>similarityFolderMap\<close>.\<close>

definition indexStep :: "(string \<rightharpoonup> string list) \<Rightarrow> string \<Rightarrow> (string \<rightharpoonup> string list)" where
  "indexStep m key =
     (case strings_Split key of
        [p0, p1] \<Rightarrow>
          if p0 = p1 then m
          else
            (let m1 = m(p0 \<mapsto> (case m p0 of None \<Rightarrow> [] | Some ks \<Rightarrow> ks) @ [key])
             in m1(p1 \<mapsto> (case m1 p1 of None \<Rightarrow> [] | Some ks \<Rightarrow> ks) @ [key]))
      | _ \<Rightarrow> m)"

text \<open>
  \<open>CalculateSimilarity\<close> on a new checker; \<open>None\<close> is a panic. The error it returns is that of
  \<open>GetMatchedFiles\<close>, which is always nil.
\<close>

definition groupFilePairs :: "(string list \<Rightarrow> string list) \<Rightarrow> MemoryStorage \<Rightarrow> (ptr \<times> ptr) list" where
  "groupFilePairs ord s = concat (map (\<lambda>g. filePairs (Files g)) (GetMatchedFiles ord s))"

definition CalculateSimilarity ::
  "(string list \<Rightarrow> string list) \<Rightarrow> MemoryStorage \<Rightarrow> SimilarityChecker option" where
  "CalculateSimilarity ord s =
     (case foldOpt (matchStep s) (groupFilePairs ord s) [] of
        None \<Rightarrow> None
      | Some pairs \<Rightarrow>
          (case foldOpt (calculateParentFolderSimilarity s) (ord (map fst pairs)) pairs of
             None \<Rightarrow> None
           | Some parentFolders \<Rightarrow>
               Some \<lparr>similarityFolderPairs = parentFolders,
                     similarityFolderMap = foldl indexStep Map.empty (ord (map fst parentFolders))\<rparr>))"

definition ContainsSimilarityGroup :: "SimilarityChecker \<Rightarrow> string \<Rightarrow> bool" where
  "ContainsSimilarityGroup c path = (similarityFolderMap c path \<noteq> None)"

text \<open>
  \<open>GetSimilarityFolderGroup\<close>. Its last step sorts the output by percentages that are
  \<open>float64\<close>; \<open>srt\<close> is that sort, which permutes the output.
\<close>

definition groupEntry :: "SimilarityChecker \<Rightarrow> string \<Rightarrow> string \<Rightarrow> (SimRef \<times> SimRef) list" where
  "groupEntry c path pairPath =
     (case strings_Split pairPath of
        [p0, p1] \<Rightarrow>
          (case getFolderSimilarity p0 p1 (similarityFolderPairs c) of
             Inl err \<Rightarrow> []
           | Inr (f1, f2) \<Rightarrow>
               (case deref (similarityFolderPairs c) f1 of
                  None \<Rightarrow> []
                | Some v1 \<Rightarrow> if FolderPath (EmbFolder v1) = path then [(f1, f2)] else [(f2, f1)]))
      | _ \<Rightarrow> [])"

definition GetSimilarityFolderGroup ::
  "((SimRef \<times> SimRef) list \<Rightarrow> (SimRef \<times> SimRef) list) \<Rightarrow> SimilarityChecker \<Rightarrow> string
     \<Rightarrow> (SimRef \<times> SimRef) list" where
  "GetSimilarityFolderGroup srt c path =
     srt (concat (map (groupEntry c path)
                    (case similarityFolderMap c path of None \<Rightarrow> [] | Some ks \<Rightarrow> ks)))"

text \<open>
  Example data: a storage with the folders \<open>a\<close> (files 1 and 2) and \<open>b\<close> (files 3 and 4), and
  a pair map that stores the pair of \<open>a\<close> and \<open>b\<close> as \<open>(a, b)\<close>.
\<close>

definition exFolder :: "string \<Rightarrow> Folder" where
  "exFolder p = Folder p p (Some (Folder ''.'' ''.'' None))"

definition exStorage :: MemoryStorage where
  "exStorage = NewMemoryStorage
     \<lparr>heap := (\<lambda>p. zeroFile\<lparr>Name := ''n'', Path := ''p'',
               Hash := (if p = 1 then ''b'' else if p = 2 then ''a'' else if p = 3 then ''a'' else ''c'')\<rparr>),
      fobj := (\<lambda>f. if f = exFolder ''a'' then \<lparr>Folders = [], files = [(''u'', 1), (''v'', 2)], fileCount = 2\<rparr>
                    else if f = exFolder ''b'' then \<lparr>Folders = [], files = [(''u'', 3), (''w'', 4)], fileCount = 2\<rparr>
                    else emptyFolderData)\<rparr>"

definition exSide :: "string \<Rightarrow> FolderSimilarity" where
  "exSide p = \<lparr>EmbFolder = exFolder p, FileCount = 1,
      DuplicateFileCount = 1, DuplicateFiles = [(''x'', 0)]\<rparr>"

definition exPairs :: PairMap where
  "exPairs = [(''a:b'', (exSide ''a'', exSide ''b''))]"


definition exFS :: SimFS where
  "exFS = [(''a'', True), (''a/.DS_Store'', False), (''b'', True), (''b/data.bin'', False),
           (''c'', True), (''c/.git'', True)]"

definition exDeleteEmpty :: "string \<Rightarrow> FileActionTask" where
  "exDeleteEmpty p =
     \<lparr>Action = DeleteEmptyFolder, TaskFile = None, TaskFolder = Some (exFolder p),
      TargetFolder = None, TargetName = [], NotDuplicate = False\<rparr>"

definition exDeleteFolder :: "string \<Rightarrow> FileActionTask" where
  "exDeleteFolder p =
     \<lparr>Action = DeleteFolder, TaskFile = None, TaskFolder = Some (exFolder p),
      TargetFolder = None, TargetName = [], NotDuplicate = True\<rparr>"

definition exEnv :: ExecEnv where
  "exEnv = \<lparr>ctxDone = (\<lambda>i. False), reads = (\<lambda>i. 0), hasLogger = True\<rparr>"

text \<open>
  The progress records of the tasks \<open>i\<close>, \<open>i + 1\<close>, ... with the messages \<open>msgs\<close>: the
  record of task \<open>j\<close> has \<open>Current = j + 1\<close>.
\<close>

definition progressRecords :: "nat \<Rightarrow> int \<Rightarrow> string list \<Rightarrow> ProgressUpdate list" where
  "progressRecords i totalTasks msgs =
     map (\<lambda>(j, m). \<lparr>Current = int j + 1, Total = totalTasks, Message = m\<rparr>) (enumerate i msgs)"

text \<open>
  \<open>emptiesGroup s file\<close>: the storage has a group for the \<open>Hash\<close> of the file and removing
  the file from the group leaves no file in it.
\<close>

definition emptiesGroup :: "MemoryStorage \<Rightarrow> ptr \<Rightarrow> bool" where
  "emptiesGroup s file =
     (case map_of (matchedFiles s) (Hash (heap s file)) of
        None \<Rightarrow> False
      | Some g \<Rightarrow> filter (\<lambda>f. f \<noteq> file) (Files g) = [])"

text \<open>
  Example data: the files \<open>a/y\<close> and \<open>a/x\<close>; a storage that holds \<open>a/y\<close> only, beside the
  object of \<open>a/x\<close>; a storage to which the object of \<open>a/y\<close> was added twice; a filesystem
  with \<open>a/y\<close> and the empty folder \<open>b\<close>, and the task that moves \<open>a/y\<close> into \<open>b\<close>;
  eleven tasks and two tasks for a run.
\<close>

definition exFileY :: File where
  "exFileY = \<lparr>Name = ''y'', Path = ''a/y'', Hash = ''h1'', Size = 3, ModTime = 7, Parent = None\<rparr>"

definition exFileX :: File where
  "exFileX = \<lparr>Name = ''x'', Path = ''a/x'', Hash = ''h2'', Size = 4, ModTime = 8, Parent = None\<rparr>"

definition exStored :: MemoryStorage where
  "exStored =
     (let (p, s0) = newFile NewMemoryStorage exFileY;
          s1 = snd (AddFile s0 p);
          (q, s2) = newFile s1 exFileX
      in s2)"

definition exMoveStorage :: MemoryStorage where
  "exMoveStorage = (let (p, s0) = newFile NewMemoryStorage exFileY in snd (AddFile s0 p))"

definition exMoveFS :: SimFS where
  "exMoveFS = [(''a'', True), (''a/y'', False), (''b'', True)]"

definition exMove :: "string \<Rightarrow> FileActionTask" where
  "exMove targetName =
     \<lparr>Action = Move, TaskFile = Some 0, TaskFolder = None, TargetFolder = Some (exFolder ''b''),
      TargetName = targetName, NotDuplicate = False\<rparr>"


definition exTwice :: MemoryStorage where
  "exTwice =
     (let (p, s0) = newFile NewMemoryStorage exFileY;
          s1 = snd (AddFile s0 p)
      in snd (AddFile s1 p))"

definition exEleven :: "FileActionTask list" where
  "exEleven = replicate 11 (exDeleteEmpty ''b'')"

definition exTwoTasks :: "FileActionTask list" where
  "exTwoTasks = [exDeleteEmpty ''b'', exDeleteEmpty ''a'']"

text \<open>
  The files under all the roots of a scan; \<open>hashed\<close> holds of a file that was opened and
  hashed without error; the roots are readable when each can be opened and its tree is readable.
\<close>

definition rootFiles ::
  "(string \<times> (error + Node)) list \<Rightarrow> (string \<times> string \<times> (error + (string \<times> int \<times> int))) list" where
  "rootFiles roots =
     concat (map (\<lambda>(path, root). case root of Inl err \<Rightarrow> [] | Inr tree \<Rightarrow> regularFiles ''.'' tree) roots)"

definition hashed :: "string \<times> string \<times> (error + (string \<times> int \<times> int)) \<Rightarrow> bool" where
  "hashed f = (case f of (path, name, r) \<Rightarrow> (case r of Inl err \<Rightarrow> False | Inr v \<Rightarrow> True))"

fun readableRoots :: "(string \<times> (error + Node)) list \<Rightarrow> bool" where
  "readableRoots [] = True"
| "readableRoots ((path, root) # rest) =
     ((case root of Inl err \<Rightarrow> False | Inr tree \<Rightarrow> readable tree) \<and> readableRoots rest)"

text \<open>
  Example data: a tree with a hidden file, the directory \<open>.git\<close> with the file \<open>config\<close>, and
  the directory \<open>p\<close> with an unreadable hidden file and the file \<open>x\<close>.
\<close>

definition exTree :: Node where
  "exTree =
     Directory ''.'' (Inr
       [RegFile ''.hidden'' (Inr (''h0'', 1, 1)),
        Directory ''.git'' (Inr [RegFile ''config'' (Inr (''h1'', 2, 2))]),
        Directory ''p'' (Inr [RegFile ''.DS_Store'' (Inl (OsError ''permission denied'')),
                               RegFile ''x'' (Inr (''h2'', 3, 3))])])"

section \<open>Pair canonicalisation\<close>

lemma folderPairKey_commute: "folderPairKey a b = folderPairKey b a"
  by (auto simp: folderPairKey_def)

lemma folderPairKey_min_max: "folderPairKey a b = min a b @ '':'' @ max a b"
  by (auto simp: folderPairKey_def min_def max_def)

text \<open>
  C8. The key of a pair does not depend on the order of the two paths and is
  \<open>min a b\<close>, a colon, \<open>max a b\<close>. When the map holds under that key the two sides of
  \<open>a\<close> and \<open>b\<close>, stored in either order, \<open>getFolderSimilarity a b\<close> returns the side of
  \<open>a\<close> first and the side of \<open>b\<close> second.
\<close>

theorem pair_key_canonical:
  "folderPairKey a b = folderPairKey b a \<and>
   folderPairKey a b = min a b @ '':'' @ max a b \<and>
   (\<forall>pairs sa sb.
      FolderPath (EmbFolder sa) = a \<and> FolderPath (EmbFolder sb) = b \<and>
      (map_of pairs (folderPairKey a b) = Some (sa, sb) \<or>
       map_of pairs (folderPairKey a b) = Some (sb, sa)) \<longrightarrow>
      (\<exists>r1 r2 x y. getFolderSimilarity a b pairs = Inr (r1, r2) \<and>
         deref pairs r1 = Some x \<and> deref pairs r2 = Some y \<and>
         FolderPath (EmbFolder x) = a \<and> FolderPath (EmbFolder y) = b \<and>
         {x, y} = {sa, sb}))"
  by (auto simp: folderPairKey_commute folderPairKey_min_max getFolderSimilarity_def
      deref_def side_def Let_def)

theorem pair_key_canonical_witness:
  "map_of exPairs (folderPairKey ''b'' ''a'') = Some (exSide ''a'', exSide ''b'') \<and>
   getFolderSimilarity ''b'' ''a'' exPairs = Inr ((''a:b'', 1), (''a:b'', 0)) \<and>
   (\<exists>r1 r2 x y. getFolderSimilarity ''b'' ''a'' exPairs = Inr (r1, r2) \<and>
      deref exPairs r1 = Some x \<and> deref exPairs r2 = Some y \<and>
      FolderPath (EmbFolder x) = ''b'' \<and> FolderPath (EmbFolder y) = ''a'')"
proof -
  have key: "folderPairKey ''b'' ''a'' = ''a:b''"
    by (simp add: folderPairKey_def)
  have stored: "map_of exPairs (folderPairKey ''b'' ''a'') = Some (exSide ''a'', exSide ''b'')"
    by (simp add: key exPairs_def)
  have paths: "FolderPath (EmbFolder (exSide ''b'')) = ''b''" "FolderPath (EmbFolder (exSide ''a'')) = ''a''"
    by (simp_all add: exSide_def exFolder_def)
  have got: "getFolderSimilarity ''b'' ''a'' exPairs = Inr ((''a:b'', 1), (''a:b'', 0))"
    by (simp add: getFolderSimilarity_def key exPairs_def side_def exSide_def exFolder_def Let_def)
  from pair_key_canonical[of "''b''" "''a''"]
  have "\<exists>r1 r2 x y. getFolderSimilarity ''b'' ''a'' exPairs = Inr (r1, r2) \<and>
      deref exPairs r1 = Some x \<and> deref exPairs r2 = Some y \<and>
      FolderPath (EmbFolder x) = ''b'' \<and> FolderPath (EmbFolder y) = ''a'' \<and>
      {x, y} = {exSide ''b'', exSide ''a''}"
    using stored paths by blast
  then show ?thesis using stored got by blast
qed

section \<open>The merge of two folders' files is a partition\<close>

lemma mergeLoop_count:
  "mergeLoop h xs ys = (m, l, r) \<Longrightarrow> 2 * length m + length l + length r = length xs + length ys"
  by (induction h xs ys arbitrary: m l r rule: mergeLoop.induct) (auto split: prod.splits if_splits)

lemma mergeLoop_mset:
  "mergeLoop h xs ys = (m, l, r) \<Longrightarrow>
     mset (map fst m) + mset l = mset xs \<and> mset (map snd m) + mset r = mset ys"
  by (induction h xs ys arbitrary: m l r rule: mergeLoop.induct) (auto split: prod.splits if_splits)

lemma mergeLoop_equal:
  "mergeLoop h xs ys = (m, l, r) \<Longrightarrow> \<forall>(x, y) \<in> set m. h x = h y"
  by (induction h xs ys arbitrary: m l r rule: mergeLoop.induct) (auto split: prod.splits if_splits)

lemma mergeLoop_sets:
  assumes "mergeLoop h xs ys = (m, l, r)"
  shows "set (map fst m) \<union> set l = set xs \<and> set (map snd m) \<union> set r = set ys"
proof -
  have 1: "mset (map fst m @ l) = mset xs" and 2: "mset (map snd m @ r) = mset ys"
    using mergeLoop_mset[OF assms] by simp_all
  from mset_eq_setD[OF 1] mset_eq_setD[OF 2] show ?thesis by simp
qed

lemma mergeLoop_mem:
  assumes "mergeLoop h xs ys = (m, l, r)"
  shows "p \<in> set m \<Longrightarrow> fst p \<in> set xs \<and> snd p \<in> set ys"
    and "a \<in> set l \<Longrightarrow> a \<in> set xs"
    and "b \<in> set r \<Longrightarrow> b \<in> set ys"
  using mergeLoop_sets[OF assms] by force+

lemma mergeLoop_lower:
  assumes "mergeLoop h xs ys = (m, l, r)"
    and "\<And>a. a \<in> set xs \<Longrightarrow> c \<le> h a" and "\<And>b. b \<in> set ys \<Longrightarrow> c \<le> h b"
  shows "\<forall>p \<in> set m. c \<le> h (fst p) \<and> c \<le> h (snd p)"
    and "\<forall>a \<in> set l. c \<le> h a"
    and "\<forall>b \<in> set r. c \<le> h b"
proof -
  show "\<forall>p \<in> set m. c \<le> h (fst p) \<and> c \<le> h (snd p)"
  proof
    fix p assume "p \<in> set m"
    from mergeLoop_mem(1)[OF assms(1) this] show "c \<le> h (fst p) \<and> c \<le> h (snd p)"
      using assms(2)[of "fst p"] assms(3)[of "snd p"] by blast
  qed
  show "\<forall>a \<in> set l. c \<le> h a"
  proof
    fix a assume "a \<in> set l"
    from mergeLoop_mem(2)[OF assms(1) this] show "c \<le> h a" by (rule assms(2))
  qed
  show "\<forall>b \<in> set r. c \<le> h b"
  proof
    fix b assume "b \<in> set r"
    from mergeLoop_mem(3)[OF assms(1) this] show "c \<le> h b" by (rule assms(3))
  qed
qed

lemma mergeLoop_sorted:
  "mergeLoop h xs ys = (m, l, r) \<Longrightarrow> sorted (map h xs) \<Longrightarrow> sorted (map h ys) \<Longrightarrow>
     sorted (map (\<lambda>p. h (fst p)) m) \<and> sorted (map (\<lambda>p. h (snd p)) m) \<and> sorted (map h l) \<and> sorted (map h r)"
proof (induction h xs ys arbitrary: m l r rule: mergeLoop.induct)
  case (1 h)
  then show ?case by simp
next
  case (2 h y ys)
  obtain m' l' r' where rec: "mergeLoop h [] ys = (m', l', r')" by (cases "mergeLoop h [] ys") auto
  have lo: "\<forall>b \<in> set r'. h y \<le> h b"
    using "2.prems"(3) by (intro mergeLoop_lower(3)[OF rec]) auto
  have "sorted (map (\<lambda>p. h (fst p)) m') \<and> sorted (map (\<lambda>p. h (snd p)) m') \<and> sorted (map h l') \<and> sorted (map h r')"
    using "2.IH"[OF rec] "2.prems" by auto
  moreover have "m = m'" "l = l'" "r = y # r'" using "2.prems"(1) rec by auto
  ultimately show ?case using lo by auto
next
  case (3 h x xs)
  obtain m' l' r' where rec: "mergeLoop h xs [] = (m', l', r')" by (cases "mergeLoop h xs []") auto
  have lo: "\<forall>b \<in> set l'. h x \<le> h b"
    using "3.prems"(2) by (intro mergeLoop_lower(2)[OF rec]) auto
  have "sorted (map (\<lambda>p. h (fst p)) m') \<and> sorted (map (\<lambda>p. h (snd p)) m') \<and> sorted (map h l') \<and> sorted (map h r')"
    using "3.IH"[OF rec] "3.prems" by auto
  moreover have "m = m'" "l = x # l'" "r = r'" using "3.prems"(1) rec by auto
  ultimately show ?case using lo by auto
next
  case (4 h x xs y ys)
  have sx: "\<forall>a \<in> set xs. h x \<le> h a" "sorted (map h xs)"
    and sy: "\<forall>b \<in> set ys. h y \<le> h b" "sorted (map h ys)"
    using "4.prems" by auto
  show ?case
  proof (cases "h x = h y")
    case True
    obtain m' l' r' where rec: "mergeLoop h xs ys = (m', l', r')" by (cases "mergeLoop h xs ys") auto
    have lo: "\<forall>p \<in> set m'. h x \<le> h (fst p) \<and> h x \<le> h (snd p)"
      using sx(1) sy(1) True by (intro mergeLoop_lower(1)[OF rec]) auto
    have "sorted (map (\<lambda>p. h (fst p)) m') \<and> sorted (map (\<lambda>p. h (snd p)) m') \<and> sorted (map h l') \<and> sorted (map h r')"
      using "4.IH"(1)[OF True rec] sx sy by auto
    moreover have "m = (x, y) # m'" "l = l'" "r = r'" using "4.prems"(1) rec True by auto
    ultimately show ?thesis using lo True by auto
  next
    case False
    show ?thesis
    proof (cases "h x < h y")
      case True
      obtain m' l' r' where rec: "mergeLoop h xs (y # ys) = (m', l', r')"
        by (cases "mergeLoop h xs (y # ys)") auto
      have xy: "h x \<le> h y" using True by (rule less_imp_le)
      have yb: "h x \<le> h b" if "b \<in> set (y # ys)" for b
      proof -
        have "h y \<le> h b" using that sy(1) by auto
        with xy show "h x \<le> h b" by (rule order_trans)
      qed
      have xa: "h x \<le> h a" if "a \<in> set xs" for a using that sx(1) by blast
      have lo: "\<forall>a \<in> set l'. h x \<le> h a"
        by (rule mergeLoop_lower(2)[OF rec xa yb])
      have "sorted (map (\<lambda>p. h (fst p)) m') \<and> sorted (map (\<lambda>p. h (snd p)) m') \<and> sorted (map h l') \<and> sorted (map h r')"
        using "4.IH"(2)[OF False True rec] sx "4.prems"(3) by auto
      moreover have "m = m'" "l = x # l'" "r = r'" using "4.prems"(1) rec True False by auto
      ultimately show ?thesis using lo by auto
    next
      case nlt: False
      obtain m' l' r' where rec: "mergeLoop h (x # xs) ys = (m', l', r')"
        by (cases "mergeLoop h (x # xs) ys") auto
      have yx: "h y \<le> h x" using nlt by (simp add: not_less)
      have xa: "h y \<le> h a" if "a \<in> set (x # xs)" for a
      proof -
        have "h x \<le> h a" using that sx(1) by auto
        with yx show "h y \<le> h a" by (rule order_trans)
      qed
      have yb: "h y \<le> h b" if "b \<in> set ys" for b using that sy(1) by blast
      have lo: "\<forall>b \<in> set r'. h y \<le> h b"
        by (rule mergeLoop_lower(3)[OF rec xa yb])
      have "sorted (map (\<lambda>p. h (fst p)) m') \<and> sorted (map (\<lambda>p. h (snd p)) m') \<and> sorted (map h l') \<and> sorted (map h r')"
        using "4.IH"(3)[OF False nlt rec] sy "4.prems"(2) by auto
      moreover have "m = m'" "l = l'" "r = y # r'" using "4.prems"(1) rec nlt False by auto
      ultimately show ?thesis using lo by auto
    qed
  qed
qed

lemma mergeLoop_distinct:
  assumes "mergeLoop h xs ys = (m, l, r)" and "distinct (xs @ ys)"
  shows "distinct (map fst m @ map snd m @ l @ r)"
proof -
  from mergeLoop_mset[OF assms(1)]
  have "mset (map fst m @ l @ map snd m @ r) = mset (xs @ ys)"
    by simp
  then have "distinct (map fst m @ l @ map snd m @ r)"
    using assms(2) mset_eq_imp_distinct_iff by blast
  then show ?thesis by auto
qed

text \<open>
  C4. For two folders whose files are distinct objects, \<open>GetMatchedFilePairs\<close> splits the
  two file lists: twice the matched pairs plus the one-sided files count every file, no file is
  in two places of the result, the left files of the result are the files of the first folder
  and the right files those of the second, the two files of a matched pair have the same
  \<open>Hash\<close>, and the matched pairs and both one-sided lists ascend by \<open>Hash\<close>.
\<close>

theorem GetMatchedFilePairs_partition:
  assumes "sortSlice srt"
    and "distinct (GetFiles s (EmbFolder folder1) @ GetFiles s (EmbFolder folder2))"
  shows "case GetMatchedFilePairs srt s folder1 folder2 of
           (matchedPairs, folder1Only, folder2Only) \<Rightarrow>
             2 * length matchedPairs + length folder1Only + length folder2Only
               = length (GetFiles s (EmbFolder folder1)) + length (GetFiles s (EmbFolder folder2)) \<and>
             distinct (map fst matchedPairs @ map snd matchedPairs @ folder1Only @ folder2Only) \<and>
             mset (map fst matchedPairs) + mset folder1Only = mset (GetFiles s (EmbFolder folder1)) \<and>
             mset (map snd matchedPairs) + mset folder2Only = mset (GetFiles s (EmbFolder folder2)) \<and>
             (\<forall>(f1, f2) \<in> set matchedPairs. Hash (heap s f1) = Hash (heap s f2)) \<and>
             sorted (map (\<lambda>(f1, f2). Hash (heap s f1)) matchedPairs) \<and>
             sorted (map (\<lambda>(f1, f2). Hash (heap s f2)) matchedPairs) \<and>
             sorted (map (\<lambda>f. Hash (heap s f)) folder1Only) \<and>
             sorted (map (\<lambda>f. Hash (heap s f)) folder2Only)"
proof -
  let ?h = "\<lambda>p. Hash (heap s p)"
  let ?files1 = "GetFiles s (EmbFolder folder1)" and ?files2 = "GetFiles s (EmbFolder folder2)"
  let ?xs = "srt ?h ?files1" and ?ys = "srt ?h ?files2"
  obtain m l r where ml: "mergeLoop ?h ?xs ?ys = (m, l, r)"
    by (cases "mergeLoop ?h ?xs ?ys") auto
  have res: "GetMatchedFilePairs srt s folder1 folder2 = (m, l, r)"
    using ml by (simp add: GetMatchedFilePairs_def)
  have px: "mset ?xs = mset ?files1" "sorted (map ?h ?xs)"
    and py: "mset ?ys = mset ?files2" "sorted (map ?h ?ys)"
    using assms(1) by (auto simp: sortSlice_def)
  have len: "length ?xs = length ?files1" "length ?ys = length ?files2"
    using px(1) py(1) by (auto dest: mset_eq_length)
  have c1: "2 * length m + length l + length r = length ?files1 + length ?files2"
    using mergeLoop_count[OF ml] len by simp
  have "mset (?xs @ ?ys) = mset (?files1 @ ?files2)" using px(1) py(1) by simp
  then have "distinct (?xs @ ?ys)" using assms(2) mset_eq_imp_distinct_iff by blast
  then have c2: "distinct (map fst m @ map snd m @ l @ r)"
    by (rule mergeLoop_distinct[OF ml])
  have c3: "mset (map fst m) + mset l = mset ?files1" "mset (map snd m) + mset r = mset ?files2"
    using mergeLoop_mset[OF ml] px(1) py(1) by auto
  have c4: "\<forall>(f1, f2) \<in> set m. ?h f1 = ?h f2"
    using mergeLoop_equal[OF ml] by simp
  have c5: "sorted (map (\<lambda>p. ?h (fst p)) m)" "sorted (map (\<lambda>p. ?h (snd p)) m)"
    "sorted (map ?h l)" "sorted (map ?h r)"
    using mergeLoop_sorted[OF ml px(2) py(2)] by auto
  show ?thesis
    unfolding res using c1 c2 c3 c4 c5 by (simp add: case_prod_unfold)
qed

lemma sortSlice_sort_key: "sortSlice (\<lambda>h. sort_key h)"
  by (simp add: sortSlice_def)

theorem GetMatchedFilePairs_partition_witness:
  "sortSlice (\<lambda>h. sort_key h) \<and>
   distinct (GetFiles exStorage (EmbFolder (exSide ''a'')) @ GetFiles exStorage (EmbFolder (exSide ''b''))) \<and>
   GetMatchedFilePairs (\<lambda>h. sort_key h) exStorage (exSide ''a'') (exSide ''b'') = ([(2, 3)], [1], [4]) \<and>
   (case GetMatchedFilePairs (\<lambda>h. sort_key h) exStorage (exSide ''a'') (exSide ''b'') of
      (matchedPairs, folder1Only, folder2Only) \<Rightarrow>
        2 * length matchedPairs + length folder1Only + length folder2Only = 4 \<and>
        distinct (map fst matchedPairs @ map snd matchedPairs @ folder1Only @ folder2Only) \<and>
        (\<forall>(f1, f2) \<in> set matchedPairs. Hash (heap exStorage f1) = Hash (heap exStorage f2)))"
proof -
  have f1: "GetFiles exStorage (EmbFolder (exSide ''a'')) = [1, 2]"
    and f2: "GetFiles exStorage (EmbFolder (exSide ''b'')) = [3, 4]"
    by (simp_all add: GetFiles_def exStorage_def exSide_def exFolder_def)
  have d: "distinct (GetFiles exStorage (EmbFolder (exSide ''a'')) @ GetFiles exStorage (EmbFolder (exSide ''b'')))"
    by (simp add: f1 f2)
  have ev: "GetMatchedFilePairs (\<lambda>h. sort_key h) exStorage (exSide ''a'') (exSide ''b'') = ([(2, 3)], [1], [4])"
    by (simp add: GetMatchedFilePairs_def f1 f2) (simp add: exStorage_def zeroFile_def)
  show ?thesis
    using GetMatchedFilePairs_partition[OF sortSlice_sort_key d] sortSlice_sort_key d ev
    by (simp add: case_prod_unfold f1 f2)
qed

section \<open>Deleting an empty folder\<close>

lemma isEmpty_iff:
  "isEmpty entries \<longleftrightarrow>
     (\<forall>e \<in> set entries. InfoName e \<noteq> ''.'' \<and> InfoName e \<noteq> ''..'' \<longrightarrow>
        \<not> IsDir e \<and> HasPrefix (InfoName e) ''.'')"
  by (induction entries) auto

text \<open>
  C7. \<open>RemoveEmptyFolder\<close> takes a folder as empty exactly when every entry other than
  \<open>.\<close> and \<open>..\<close> is not a directory and has a name that starts with a dot. When the folder
  can be opened and read, a \<open>DeleteEmptyFolder\<close> task on such a folder calls \<open>RemoveAll\<close>
  and returns nil when that succeeds; with a subdirectory or a file that is not hidden the task
  returns \<open>ErrNotEmptyFolder\<close> and leaves the filesystem and the storage as they were.
\<close>

theorem DeleteEmptyFolder_policy:
  "(isEmpty entries \<longleftrightarrow>
      (\<forall>e \<in> set entries. InfoName e \<noteq> ''.'' \<and> InfoName e \<noteq> ''..'' \<longrightarrow>
         \<not> IsDir e \<and> HasPrefix (InfoName e) ''.'')) \<and>
   (Action task = DeleteEmptyFolder \<and> TaskFolder task = Some fo \<and>
    Open root fs (FolderPath fo) = None \<and> Readdir root fs (FolderPath fo) = Inr entries \<longrightarrow>
      (isEmpty entries \<and> RemoveAll root fs (FolderPath fo) = (None, fs') \<longrightarrow>
         ExecuteFileActionTask s root fs task = Some (None, s, fs')) \<and>
      (\<not> isEmpty entries \<longrightarrow>
         ExecuteFileActionTask s root fs task = Some (Some ErrNotEmptyFolder, s, fs)))"
  by (auto simp: isEmpty_iff ExecuteFileActionTask_def RemoveEmptyFolder_def)

lemma exReaddir:
  "Readdir simOps exFS ''a'' = Inr [\<lparr>InfoName = ''.DS_Store'', IsDir = False\<rparr>]"
  "Readdir simOps exFS ''b'' = Inr [\<lparr>InfoName = ''data.bin'', IsDir = False\<rparr>]"
  "Readdir simOps exFS ''c'' = Inr [\<lparr>InfoName = ''.git'', IsDir = True\<rparr>]"
  by (simp_all add: simOps_def exFS_def Dir_def Base_def Clean_def cleanStep_def)

theorem DeleteEmptyFolder_policy_witness:
  "ExecuteFileActionTask NewMemoryStorage simOps exFS (exDeleteEmpty ''a'')
     = Some (None, NewMemoryStorage, [(''b'', True), (''b/data.bin'', False), (''c'', True), (''c/.git'', True)]) \<and>
   ExecuteFileActionTask NewMemoryStorage simOps exFS (exDeleteEmpty ''b'') = Some (Some ErrNotEmptyFolder, NewMemoryStorage, exFS) \<and>
   ExecuteFileActionTask NewMemoryStorage simOps exFS (exDeleteEmpty ''c'') = Some (Some ErrNotEmptyFolder, NewMemoryStorage, exFS)"
proof -
  have op: "Open simOps exFS ''a'' = None" "Open simOps exFS ''b'' = None" "Open simOps exFS ''c'' = None"
    by (simp_all add: simOps_def exFS_def simExists_def)
  have ra: "RemoveAll simOps exFS ''a''
              = (None, [(''b'', True), (''b/data.bin'', False), (''c'', True), (''c/.git'', True)])"
    by (simp add: simOps_def exFS_def HasPrefix_def)
  have t: "Action (exDeleteEmpty p) = DeleteEmptyFolder" "TaskFolder (exDeleteEmpty p) = Some (exFolder p)"
    "FolderPath (exFolder p) = p" for p
    by (simp_all add: exDeleteEmpty_def exFolder_def)
  have a: "ExecuteFileActionTask NewMemoryStorage simOps exFS (exDeleteEmpty ''a'')
     = Some (None, NewMemoryStorage, [(''b'', True), (''b/data.bin'', False), (''c'', True), (''c/.git'', True)])"
    using DeleteEmptyFolder_policy[of "[\<lparr>InfoName = ''.DS_Store'', IsDir = False\<rparr>]"
        "exDeleteEmpty ''a''" "exFolder ''a''" simOps exFS _ NewMemoryStorage]
    by (simp add: t op ra exReaddir HasPrefix_def)
  have b: "ExecuteFileActionTask NewMemoryStorage simOps exFS (exDeleteEmpty ''b'') = Some (Some ErrNotEmptyFolder, NewMemoryStorage, exFS)"
    using DeleteEmptyFolder_policy[of "[\<lparr>InfoName = ''data.bin'', IsDir = False\<rparr>]"
        "exDeleteEmpty ''b''" "exFolder ''b''" simOps exFS _ NewMemoryStorage]
    by (simp add: t op exReaddir HasPrefix_def)
  have c: "ExecuteFileActionTask NewMemoryStorage simOps exFS (exDeleteEmpty ''c'') = Some (Some ErrNotEmptyFolder, NewMemoryStorage, exFS)"
    using DeleteEmptyFolder_policy[of "[\<lparr>InfoName = ''.git'', IsDir = True\<rparr>]"
        "exDeleteEmpty ''c''" "exFolder ''c''" simOps exFS _ NewMemoryStorage]
    by (simp add: t op exReaddir HasPrefix_def)
  show ?thesis using a b c by simp
qed

section \<open>Errors of tasks during a run\<close>

lemma afterTask_fields:
  "storage (afterTask env totalTasks i err message st) = storage st"
  "rootFS (afterTask env totalTasks i err message st) = rootFS st"
  "logged (afterTask env totalTasks i err message st) =
     (if hasLogger env then
        logged st @ [case err of Some e \<Rightarrow> LogError (Error e) | None \<Rightarrow> Info (''Executed task: '' @ message)]
      else logged st)"
  "isDone (afterTask env totalTasks i err message st) = isDone st"
  by (auto simp: afterTask_def logResult_def send_def receive_def split: option.splits)

lemma afterTask_channel:
  "received (afterTask env totalTasks i err message st) @ progressChan (afterTask env totalTasks i err message st)
     @ dropped (afterTask env totalTasks i err message st) =
   (if length (progressChan st) - reads env i < 10
    then received st @ progressChan st @ [\<lparr>Current = int i + 1, Total = totalTasks, Message = message\<rparr>] @ dropped st
    else received st @ progressChan st @ dropped st @ [\<lparr>Current = int i + 1, Total = totalTasks, Message = message\<rparr>])"
  by (auto simp: afterTask_def logResult_def send_def receive_def split: option.splits)

text \<open>
  C6. At any task of a run that is not cancelled there: when the task fails with an error that
  is \<open>ErrNotEmptyFolder\<close>, \<open>Execute\<close> appends \<open> (folder is not empty)\<close> to the message,
  logs the message as information (with a logger) and goes on with the following tasks; when
  it fails with any other error, \<open>Execute\<close> logs the error and returns it, and the storage
  and the filesystem stay as that task left them, whatever tasks follow.
\<close>

theorem Execute_absorbs_NotEmptyFolder_aborts_on_others:
  assumes "\<not> ctxDone env i"
    and "ExecuteFileActionTask (storage st) root (rootFS st) task = Some (Some e, storage', fs')"
    and "String storage' task = Some message"
  shows "(errors_Is_ErrNotEmptyFolder e \<longrightarrow>
           (\<exists>st'. ExecuteLoop root env totalTasks i (task # tasks) st =
                    ExecuteLoop root env totalTasks (Suc i) tasks st' \<and>
                  st' = afterTask env totalTasks i None (message @ '' (folder is not empty)'')
                          (st\<lparr>storage := storage', rootFS := fs'\<rparr>) \<and>
                  storage st' = storage' \<and> rootFS st' = fs' \<and>
                  (hasLogger env \<longrightarrow>
                     logged st' = logged st @
                       [Info (''Executed task: '' @ message @ '' (folder is not empty)'')]))) \<and>
         (\<not> errors_Is_ErrNotEmptyFolder e \<longrightarrow>
           (\<exists>st'. ExecuteLoop root env totalTasks i (task # tasks) st = (Return (Some e), st') \<and>
                  st' = afterTask env totalTasks i (Some e) message
                          (st\<lparr>storage := storage', rootFS := fs'\<rparr>) \<and>
                  storage st' = storage' \<and> rootFS st' = fs' \<and> isDone st' = isDone st \<and>
                  (hasLogger env \<longrightarrow> logged st' = logged st @ [LogError (Error e)])))"
  using assms by (auto simp: Let_def afterTask_fields)

lemma exOpen:
  "Open simOps exFS ''a'' = None" "Open simOps exFS ''b'' = None" "Open simOps exFS ''c'' = None"
  by (simp_all add: simOps_def exFS_def simExists_def)

lemma ex_task_b:
  "ExecuteFileActionTask s simOps exFS (exDeleteEmpty ''b'') = Some (Some ErrNotEmptyFolder, s, exFS)"
  by (simp add: ExecuteFileActionTask_def RemoveEmptyFolder_def exDeleteEmpty_def exFolder_def
      exReaddir exOpen HasPrefix_def)

lemma ex_task_zz:
  "ExecuteFileActionTask s simOps exFS (exDeleteFolder ''zz'')
     = Some (Some (OsError ''no such file or directory''), s, exFS)"
  by (simp add: ExecuteFileActionTask_def exDeleteFolder_def exFolder_def simOps_def exFS_def
      simExists_def)

theorem Execute_absorbs_NotEmptyFolder_aborts_on_others_witness:
  "\<exists>st'. ExecuteLoop simOps exEnv 3 0
            [exDeleteEmpty ''b'', exDeleteFolder ''zz'', exDeleteEmpty ''a'']
            (newExecState NewMemoryStorage exFS)
          = (Return (Some (OsError ''no such file or directory'')), st') \<and>
        logged st' = [Info ''Executed task: Delete empty folder: b (folder is not empty)'',
                      LogError ''no such file or directory''] \<and>
        rootFS st' = exFS \<and> \<not> isDone st'"
proof -
  let ?st0 = "newExecState NewMemoryStorage exFS :: SimFS ExecState"
  have nc: "\<not> ctxDone exEnv i" for i by (simp add: exEnv_def)
  have lg: "hasLogger exEnv" by (simp add: exEnv_def)
  have s0: "storage ?st0 = NewMemoryStorage" "rootFS ?st0 = exFS" "logged ?st0 = []" "\<not> isDone ?st0"
    by (simp_all add: newExecState_def)
  have m1: "String NewMemoryStorage (exDeleteEmpty ''b'') = Some ''Delete empty folder: b''"
    and m2: "String NewMemoryStorage (exDeleteFolder ''zz'') = Some ''Delete folder: zz''"
    by (simp_all add: String_def exDeleteEmpty_def exDeleteFolder_def exFolder_def)
  have t1: "ExecuteFileActionTask (storage ?st0) simOps (rootFS ?st0) (exDeleteEmpty ''b'')
              = Some (Some ErrNotEmptyFolder, NewMemoryStorage, exFS)"
    by (simp add: s0 ex_task_b)
  from Execute_absorbs_NotEmptyFolder_aborts_on_others[OF nc t1 m1,
      where totalTasks = 3 and tasks = "[exDeleteFolder ''zz'', exDeleteEmpty ''a'']"]
  obtain st1 where st1:
    "ExecuteLoop simOps exEnv 3 0 [exDeleteEmpty ''b'', exDeleteFolder ''zz'', exDeleteEmpty ''a''] ?st0
       = ExecuteLoop simOps exEnv 3 (Suc 0) [exDeleteFolder ''zz'', exDeleteEmpty ''a''] st1"
    "storage st1 = NewMemoryStorage" "rootFS st1 = exFS" "isDone st1 = isDone ?st0"
    "logged st1 = logged ?st0 @ [Info (''Executed task: '' @ ''Delete empty folder: b'' @ '' (folder is not empty)'')]"
    using lg by (auto simp: afterTask_fields)
  have t2: "ExecuteFileActionTask (storage st1) simOps (rootFS st1) (exDeleteFolder ''zz'')
              = Some (Some (OsError ''no such file or directory''), NewMemoryStorage, exFS)"
    by (simp add: st1 ex_task_zz)
  from Execute_absorbs_NotEmptyFolder_aborts_on_others[OF nc t2 m2,
      where totalTasks = 3 and tasks = "[exDeleteEmpty ''a'']"]
  obtain st2 where st2:
    "ExecuteLoop simOps exEnv 3 (Suc 0) [exDeleteFolder ''zz'', exDeleteEmpty ''a''] st1
       = (Return (Some (OsError ''no such file or directory'')), st2)"
    "rootFS st2 = exFS" "isDone st2 = isDone st1"
    "logged st2 = logged st1 @ [LogError (Error (OsError ''no such file or directory''))]"
    using lg by auto
  show ?thesis
    using st1 st2 s0 by (intro exI[of _ st2]) simp
qed

section \<open>Progress records of a run\<close>

lemma progressRecords_Nil [simp]: "progressRecords i totalTasks [] = []"
  by (simp add: progressRecords_def)

lemma afterTask_allReceived:
  "(allReceived (afterTask env totalTasks i err message st) =
      allReceived st @ [\<lparr>Current = int i + 1, Total = totalTasks, Message = message\<rparr>] \<and>
    dropped (afterTask env totalTasks i err message st) = dropped st) \<or>
   (allReceived (afterTask env totalTasks i err message st) = allReceived st \<and>
    dropped (afterTask env totalTasks i err message st) =
      dropped st @ [\<lparr>Current = int i + 1, Total = totalTasks, Message = message\<rparr>])"
  by (auto simp: afterTask_def logResult_def send_def receive_def allReceived_def split: option.splits)

lemma afterTask_chan_length:
  "length (progressChan (afterTask env totalTasks i err message st)) \<le> Suc (length (progressChan st))"
  "length (progressChan st) < 10 \<Longrightarrow> dropped (afterTask env totalTasks i err message st) = dropped st"
  by (auto simp: afterTask_def logResult_def send_def receive_def split: option.splits)

lemma ExecuteLoop_progress:
  assumes "\<forall>j. \<not> ctxDone env j"
    and "ExecuteLoop root env totalTasks i tasks st = (res, st')"
  shows "\<exists>msgs xs ys. length msgs \<le> length tasks \<and>
           (res = Return None \<longrightarrow> length msgs = length tasks) \<and>
           allReceived st' = allReceived st @ xs \<and> dropped st' = dropped st @ ys \<and>
           subseq xs (progressRecords i totalTasks msgs) \<and>
           mset xs + mset ys = mset (progressRecords i totalTasks msgs)"
  using assms(2)
proof (induction tasks arbitrary: i st)
  case Nil
  then have "allReceived st' = allReceived st" "dropped st' = dropped st"
    by (auto simp: allReceived_def)
  then show ?case
    by (intro exI[of _ "[]"]) (simp add: progressRecords_def)
next
  case (Cons task tasks)
  have nc: "\<not> ctxDone env i" using assms(1) by simp
  show ?case
  proof (cases "ExecuteFileActionTask (storage st) root (rootFS st) task")
    case None
    then have "st' = st" using Cons.prems nc by simp
    then show ?thesis
      using Cons.prems nc None by (intro exI[of _ "[]"]) (simp add: progressRecords_def)
  next
    case (Some r)
    obtain err storage' fs' where r: "r = (err, storage', fs')" by (cases r) auto
    show ?thesis
    proof (cases "String storage' task")
      case None
      then have "st' = st\<lparr>storage := storage', rootFS := fs'\<rparr>" "res = Panic"
        using Cons.prems nc Some r by simp_all
      then show ?thesis
        by (intro exI[of _ "[]"]) (simp add: progressRecords_def allReceived_def)
    next
      case (Some message)
      define notEmpty where "notEmpty = (case err of None \<Rightarrow> False | Some e \<Rightarrow> errors_Is_ErrNotEmptyFolder e)"
      define message' where "message' = (if notEmpty then message @ '' (folder is not empty)'' else message)"
      define err' where "err' = (if notEmpty then None else err)"
      define st1 where "st1 = afterTask env totalTasks i err' message' (st\<lparr>storage := storage', rootFS := fs'\<rparr>)"
      define u where "u = \<lparr>Current = int i + 1, Total = totalTasks, Message = message'\<rparr>"
      have step: "ExecuteLoop root env totalTasks i (task # tasks) st =
                    (if err' \<noteq> None then (Return err', st1) else ExecuteLoop root env totalTasks (Suc i) tasks st1)"
        using nc \<open>ExecuteFileActionTask (storage st) root (rootFS st) task = Some r\<close> r Some
        by (simp add: Let_def notEmpty_def message'_def err'_def st1_def)
      have base: "allReceived (st\<lparr>storage := storage', rootFS := fs'\<rparr>) = allReceived st"
        "dropped (st\<lparr>storage := storage', rootFS := fs'\<rparr>) = dropped st"
        by (simp_all add: allReceived_def)
      from afterTask_allReceived[of env totalTasks i err' message' "st\<lparr>storage := storage', rootFS := fs'\<rparr>"]
      obtain x1 y1 where one: "allReceived st1 = allReceived st @ x1" "dropped st1 = dropped st @ y1"
        "(x1 = [u] \<and> y1 = []) \<or> (x1 = [] \<and> y1 = [u])"
        unfolding st1_def[symmetric] u_def[symmetric] base by auto
      have rec1: "progressRecords i totalTasks (message' # ms) = u # progressRecords (Suc i) totalTasks ms" for ms
        by (simp add: progressRecords_def u_def)
      show ?thesis
      proof (cases "err' \<noteq> None")
        case True
        then have "st' = st1" "res = Return err'" using Cons.prems step by simp_all
        then show ?thesis using one True
          by (intro exI[of _ "[message']"] exI[of _ x1] exI[of _ y1]) (auto simp: rec1)
      next
        case False
        then have "ExecuteLoop root env totalTasks (Suc i) tasks st1 = (res, st')"
          using Cons.prems step by simp
        from Cons.IH[OF this] obtain msgs xs ys where ih:
          "length msgs \<le> length tasks" "res = Return None \<longrightarrow> length msgs = length tasks"
          "allReceived st' = allReceived st1 @ xs" "dropped st' = dropped st1 @ ys"
          "subseq xs (progressRecords (Suc i) totalTasks msgs)"
          "mset xs + mset ys = mset (progressRecords (Suc i) totalTasks msgs)"
          by blast
        show ?thesis
          using ih one
          by (intro exI[of _ "message' # msgs"] exI[of _ "x1 @ xs"] exI[of _ "y1 @ ys"])
             (auto simp: rec1)
      qed
    qed
  qed
qed

lemma ExecuteLoop_no_drop:
  assumes "ExecuteLoop root env totalTasks i tasks st = (res, st')"
    and "length (progressChan st) + length tasks \<le> 10"
  shows "dropped st' = dropped st"
  using assms
proof (induction tasks arbitrary: i st)
  case Nil
  then show ?case by auto
next
  case (Cons task tasks)
  show ?case
  proof (cases "ctxDone env i")
    case True
    then show ?thesis using Cons.prems by simp
  next
    case nc: False
    show ?thesis
    proof (cases "ExecuteFileActionTask (storage st) root (rootFS st) task")
      case None
      then show ?thesis using Cons.prems nc by simp
    next
      case (Some r)
      obtain err storage' fs' where r: "r = (err, storage', fs')" by (cases r) auto
      show ?thesis
      proof (cases "String storage' task")
        case None
        then show ?thesis using Cons.prems nc Some r by auto
      next
        case (Some message)
        define notEmpty where "notEmpty = (case err of None \<Rightarrow> False | Some e \<Rightarrow> errors_Is_ErrNotEmptyFolder e)"
        define message' where "message' = (if notEmpty then message @ '' (folder is not empty)'' else message)"
        define err' where "err' = (if notEmpty then None else err)"
        define st0 where "st0 = st\<lparr>storage := storage', rootFS := fs'\<rparr>"
        define st1 where "st1 = afterTask env totalTasks i err' message' st0"
        have step: "ExecuteLoop root env totalTasks i (task # tasks) st =
                      (if err' \<noteq> None then (Return err', st1) else ExecuteLoop root env totalTasks (Suc i) tasks st1)"
          using nc \<open>ExecuteFileActionTask (storage st) root (rootFS st) task = Some r\<close> r Some
          by (simp add: Let_def notEmpty_def message'_def err'_def st1_def st0_def)
        have c0: "progressChan st0 = progressChan st" "dropped st0 = dropped st" by (simp_all add: st0_def)
        have "length (progressChan st0) < 10" using Cons.prems(2) c0 by simp
        then have d1: "dropped st1 = dropped st" unfolding st1_def using afterTask_chan_length(2) c0 by metis
        have l1: "length (progressChan st1) \<le> Suc (length (progressChan st))"
          unfolding st1_def using afterTask_chan_length(1)[of env totalTasks i err' message' st0] c0 by simp
        show ?thesis
        proof (cases "err' \<noteq> None")
          case True
          then show ?thesis using Cons.prems step d1 by simp
        next
          case False
          then have run: "ExecuteLoop root env totalTasks (Suc i) tasks st1 = (res, st')"
            using Cons.prems step by simp
          have "length (progressChan st1) + length tasks \<le> 10" using l1 Cons.prems(2) by simp
          from Cons.IH[OF run this] d1 show ?thesis by simp
        qed
      qed
    qed
  qed
qed

lemma subseq_same_mset:
  assumes "subseq xs ys" and "mset xs = mset ys"
  shows "xs = ys"
  using assms by (metis size_mset subseq_same_length)

lemma progressRecords_last:
  "msgs \<noteq> [] \<longrightarrow> Current (last (progressRecords 0 totalTasks msgs)) = int (length msgs) \<and>
     Total (last (progressRecords 0 totalTasks msgs)) = totalTasks"
proof (cases msgs rule: rev_cases)
  case Nil
  then show ?thesis by simp
next
  case (snoc ms m)
  then show ?thesis by (simp add: progressRecords_def enumerate_append_eq)
qed

text \<open>
  C5, as amended. In a run without cancellation that starts with an empty channel, the record
  sent for task \<open>i\<close> has \<open>Current = i + 1\<close> and \<open>Total\<close> the number of tasks, and the records
  that the reader receives are, in the order of the tasks, those sent records that were not
  dropped because the channel was full. When no record was dropped, which is so with at most
  ten tasks, every record is received, and when moreover \<open>Execute\<close> returns nil the last
  record has \<open>Current = Total\<close>.
\<close>

theorem Execute_progress_in_task_order:
  assumes "\<forall>i. \<not> ctxDone env i"
    and "progressChan st = [] \<and> received st = [] \<and> dropped st = []"
    and "Execute None root env tasks st = (res, st')"
  shows "\<exists>msgs. length msgs \<le> length tasks \<and>
           subseq (allReceived st') (progressRecords 0 (int (length tasks)) msgs) \<and>
           mset (allReceived st') + mset (dropped st') = mset (progressRecords 0 (int (length tasks)) msgs) \<and>
           (res = Return None \<longrightarrow> length msgs = length tasks) \<and>
           (dropped st' = [] \<longrightarrow> allReceived st' = progressRecords 0 (int (length tasks)) msgs) \<and>
           (length tasks \<le> 10 \<longrightarrow> dropped st' = []) \<and>
           (res = Return None \<and> dropped st' = [] \<and> tasks \<noteq> [] \<longrightarrow>
              Current (last (allReceived st')) = Total (last (allReceived st')))"
proof -
  have run: "ExecuteLoop root env (int (length tasks)) 0 tasks st = (res, st')"
    using assms(3) by (simp add: Execute_def)
  have st: "allReceived st = []" "dropped st = []" "progressChan st = []"
    using assms(2) by (simp_all add: allReceived_def)
  from ExecuteLoop_progress[OF assms(1) run] obtain msgs xs ys where m:
    "length msgs \<le> length tasks" "res = Return None \<longrightarrow> length msgs = length tasks"
    "allReceived st' = xs" "dropped st' = ys"
    "subseq xs (progressRecords 0 (int (length tasks)) msgs)"
    "mset xs + mset ys = mset (progressRecords 0 (int (length tasks)) msgs)"
    using st by auto
  let ?R = "progressRecords 0 (int (length tasks)) msgs"
  have full: "dropped st' = [] \<longrightarrow> allReceived st' = ?R"
    using m(3-6) subseq_same_mset[of xs ?R] by auto
  have nodrop: "length tasks \<le> 10 \<longrightarrow> dropped st' = []"
    using ExecuteLoop_no_drop[OF run] st by auto
  have fin: "res = Return None \<and> dropped st' = [] \<and> tasks \<noteq> [] \<longrightarrow>
              Current (last (allReceived st')) = Total (last (allReceived st'))"
  proof (intro impI, elim conjE)
    assume a: "res = Return None" "dropped st' = []" "tasks \<noteq> []"
    then have "msgs \<noteq> []" "length msgs = length tasks" using m(2) by auto
    then show "Current (last (allReceived st')) = Total (last (allReceived st'))"
      using full a(2) progressRecords_last[of msgs "int (length tasks)"] by simp
  qed
  show ?thesis
    using m full nodrop fin by (intro exI[of _ msgs]) simp
qed

theorem Execute_progress_in_task_order_witness:
  "(\<forall>i. \<not> ctxDone exEnv i) \<and>
   fst (Execute None simOps exEnv exTwoTasks (newExecState NewMemoryStorage exFS)) = Return None \<and>
   map Current (allReceived (snd (Execute None simOps exEnv exTwoTasks (newExecState NewMemoryStorage exFS)))) = [1, 2] \<and>
   Current (last (allReceived (snd (Execute None simOps exEnv exTwoTasks (newExecState NewMemoryStorage exFS)))))
     = Total (last (allReceived (snd (Execute None simOps exEnv exTwoTasks (newExecState NewMemoryStorage exFS)))))"
proof -
  let ?st0 = "newExecState NewMemoryStorage exFS :: SimFS ExecState"
  let ?run = "Execute None simOps exEnv exTwoTasks ?st0"
  have nc: "\<forall>i. \<not> ctxDone exEnv i" by (simp add: exEnv_def)
  have fresh: "progressChan ?st0 = [] \<and> received ?st0 = [] \<and> dropped ?st0 = []"
    by (simp add: newExecState_def)
  have res: "fst ?run = Return None" by code_simp
  have cur: "map Current (allReceived (snd ?run)) = [1, 2]" by code_simp
  have ne: "exTwoTasks \<noteq> []" "length exTwoTasks \<le> 10" by (simp_all add: exTwoTasks_def)
  have eq: "?run = (fst ?run, snd ?run)" by simp
  from Execute_progress_in_task_order[OF nc fresh eq]
  have "Current (last (allReceived (snd ?run))) = Total (last (allReceived (snd ?run)))"
    using res ne by auto
  then show ?thesis using nc res cur by simp
qed

text \<open>
  C5, as stated, fails: eleven tasks run to the end while the reader takes nothing from the
  channel; the eleventh record is dropped and the last record received has \<open>Current = 10\<close>
  and \<open>Total = 11\<close>.
\<close>

theorem Execute_progress_counterexample:
  "fst (Execute None simOps exEnv exEleven (newExecState NewMemoryStorage exFS)) = Return None \<and>
   isDone (snd (Execute None simOps exEnv exEleven (newExecState NewMemoryStorage exFS))) \<and>
   length (allReceived (snd (Execute None simOps exEnv exEleven (newExecState NewMemoryStorage exFS)))) = 10 \<and>
   Current (last (allReceived (snd (Execute None simOps exEnv exEleven (newExecState NewMemoryStorage exFS))))) = 10 \<and>
   Total (last (allReceived (snd (Execute None simOps exEnv exEleven (newExecState NewMemoryStorage exFS))))) = 11"
  by code_simp

section \<open>Removing a file from the storage\<close>

lemma GetFolder_total:
  "\<exists>f s'. GetFolder s path = Inr (f, s') \<and> map_of (folders s') path = Some f \<and>
     matchedFiles s' = matchedFiles s \<and> hashMap s' = hashMap s \<and> heap s' = heap s \<and>
     nextPtr s' = nextPtr s"
proof (induction s path rule: GetFolder.induct)
  case (1 s path)
  show ?case
  proof (cases "map_of (folders s) path")
    case (Some f)
    then show ?thesis by (simp add: GetFolder.simps[of s path])
  next
    case None
    show ?thesis
    proof (cases "path = ''.'' \<or> path = ''/''")
      case True
      then show ?thesis using None by (auto simp: GetFolder.simps[of s path] Let_def AList.update_conv')
    next
      case False
      from "1.IH"[OF None False] obtain pf s1 where
        p: "GetFolder s (Dir path) = Inr (pf, s1)" "matchedFiles s1 = matchedFiles s"
           "hashMap s1 = hashMap s" "heap s1 = heap s" "nextPtr s1 = nextPtr s"
        by blast
      show ?thesis using None False p by (simp add: GetFolder.simps[of s path] Let_def AList.update_conv')
    qed
  qed
qed

text \<open>
  C3, as amended. \<open>GetFolder\<close> never fails: it returns the folder of the path, which the
  storage holds afterwards. \<open>RemoveFile\<close> returns an error exactly when the storage has a
  matched group for the \<open>Hash\<close> of the file that is empty once the file is taken out of it.
\<close>

theorem RemoveFile_error_iff:
  "(\<exists>f s'. GetFolder s path = Inr (f, s') \<and> map_of (folders s') path = Some f) \<and>
   (fst (RemoveFile s file) \<noteq> None \<longleftrightarrow> emptiesGroup s file)"
proof -
  obtain pf s1 where
    p: "GetFolder s (Dir (Path (heap s file))) = Inr (pf, s1)" "matchedFiles s1 = matchedFiles s"
       "heap s1 = heap s"
    using GetFolder_total[of s "Dir (Path (heap s file))"] by blast
  have "fst (RemoveFile s file) \<noteq> None \<longleftrightarrow> emptiesGroup s file"
    using p by (auto simp: RemoveFile_def emptiesGroup_def Folder_RemoveFile_def Let_def
        split: option.splits)
  then show ?thesis using GetFolder_total[of s path] by blast
qed

lemmas evalStorage = newFile_def AddFile_def RemoveFile_def Folder_AddFile_def Folder_RemoveFile_def
  GetFolder.simps NewMemoryStorage_def emptyFolderData_def zeroFile_def Let_def AList.update_conv'
lemmas evalPath = Dir_def Base_def Join_def Clean_def cleanStep_def

theorem RemoveFile_error_iff_witness:
  "emptiesGroup exTwice 0 \<and> fst (RemoveFile exTwice 0) \<noteq> None \<and>
   \<not> emptiesGroup exStored 1 \<and> fst (RemoveFile exStored 1) = None"
proof -
  have 1: "emptiesGroup exTwice 0"
    by (simp add: emptiesGroup_def exTwice_def exFileY_def evalStorage evalPath)
  have 2: "\<not> emptiesGroup exStored 1"
    by (simp add: emptiesGroup_def exStored_def exFileY_def exFileX_def evalStorage evalPath)
  show ?thesis
    using RemoveFile_error_iff[of exTwice "''a''" 0] RemoveFile_error_iff[of exStored "''a''" 1] 1 2
    by simp
qed

text \<open>
  C3, as stated, fails: the storage holds the folder \<open>a\<close> with the file \<open>y\<close> only, and
  \<open>RemoveFile\<close> of the file \<open>a/x\<close>, whose name is not in the map of \<open>a\<close>, returns nil.
\<close>

theorem RemoveFile_absent_counterexample:
  "heap exStored 1 = exFileX \<and>
   map_of (folders exStored) (Dir (Path exFileX)) = Some (exFolder ''a'') \<and>
   map_of (files (fobj exStored (exFolder ''a''))) (Name exFileX) = None \<and>
   fst (RemoveFile exStored 1) = None"
  by (simp add: exStored_def exFileY_def exFileX_def exFolder_def evalStorage evalPath)

section \<open>Moving a file\<close>

text \<open>
  A \<open>Move\<close> task without \<open>TargetName\<close>, as \<open>MergeFolderPair.GetActionTask\<close> builds it, tests
  the existence of the destination on \<open>filepath.Join(TargetFolder.Path, "")\<close>, which is the
  target folder itself. When that folder can be opened and the rename and \<open>RemoveFile\<close>
  succeed, the storage is left as \<open>RemoveFile\<close> left it: the file is not added at its
  destination.
\<close>

lemma Move_unnamed_general:
  assumes "Action task = Move" and "TargetName task = []"
    and "TaskFile task = Some file" and "TargetFolder task = Some tf"
    and "Open root fs (Join (FolderPath tf) []) = None"
    and "Rename root fs (Path (heap s file)) (Join (FolderPath tf) (Name (heap s file))) = (None, fs')"
    and "RemoveFile s file = (None, s')"
  shows "ExecuteFileActionTask s root fs task = Some (None, s', fs')"
  using assms by (simp add: ExecuteFileActionTask_def)

text \<open>
  C2 at a Move task of the planner. The folder \<open>b\<close> exists and is empty, \<open>b/y\<close> does not
  exist. The task without \<open>TargetName\<close> renames \<open>a/y\<close> to \<open>b/y\<close> and returns nil, and the
  storage then has no record of \<open>b/y\<close>: no folder \<open>b\<close>, no file under the hash. The same task
  with \<open>TargetName = y\<close> records \<open>b/y\<close> with the hash and the modification time of the
  source.
\<close>

theorem Move_unnamed_target_not_recorded:
  "Open simOps exMoveFS ''b/y'' \<noteq> None \<and>
   (case ExecuteFileActionTask exMoveStorage simOps exMoveFS (exMove []) of
      Some (None, s', fs') \<Rightarrow>
        simExists fs' ''b/y'' \<and> \<not> simExists fs' ''a/y'' \<and>
        map_of (folders s') ''b'' = None \<and> hashMap s' ''h1'' = None \<and>
        files (fobj s' (exFolder ''b'')) = []
    | _ \<Rightarrow> False) \<and>
   (case ExecuteFileActionTask exMoveStorage simOps exMoveFS (exMove ''y'') of
      Some (None, s', fs') \<Rightarrow>
        simExists fs' ''b/y'' \<and> \<not> simExists fs' ''a/y'' \<and>
        map_of (folders s') ''b'' = Some (exFolder ''b'') \<and> hashMap s' ''h1'' = Some 1 \<and>
        files (fobj s' (exFolder ''b'')) = [(''y'', 1)] \<and>
        Path (heap s' 1) = ''b/y'' \<and> Hash (heap s' 1) = ''h1'' \<and> ModTime (heap s' 1) = 7
    | _ \<Rightarrow> False)"
  by (simp add: ExecuteFileActionTask_def exMove_def exMoveStorage_def exMoveFS_def exFileY_def
      exFolder_def simOps_def simExists_def evalStorage evalPath)

section \<open>What a scan adds to the storage\<close>

lemma walk_success:
  "walk ctx path node ns = (None, n', s') \<Longrightarrow>
     s' = foldl addScanned (snd ns) (filter notHidden (regularFiles path node)) \<and>
     list_all hashed (filter notHidden (regularFiles path node))"
  "walkEntries ctx path entries ns = (None, n', s') \<Longrightarrow>
     s' = foldl addScanned (snd ns) (filter notHidden (regularFilesList path entries)) \<and>
     list_all hashed (filter notHidden (regularFilesList path entries))"
proof (induction ctx path node ns and ctx path entries ns arbitrary: n' s' and n' s'
    rule: walk_walkEntries.induct)
  case (1 ctx path name r n s)
  then show ?case
    by (auto simp: notHidden_def addScanned_def hashed_def split: if_splits sum.splits prod.splits)
next
  case (2 ctx path name r n s)
  then show ?case by (auto split: if_splits sum.splits)
next
  case (3 ctx dir n s)
  then show ?case by simp
next
  case (4 ctx dir e es n s)
  from "4.prems" obtain n1 s1 where
    w: "walk ctx (childPath dir (NodeName e)) e (n, s) = (None, n1, s1)"
    and r: "walkEntries ctx dir es (n1, s1) = (None, n', s')"
    by (auto split: prod.splits option.splits)
  from "4.IH"(1)[OF w] "4.IH"(2)[OF w[symmetric] refl refl r] show ?case by simp
qed

lemma walk_readable:
  "\<forall>k. \<not> ctx k \<Longrightarrow> readable node \<Longrightarrow> fst (walk ctx path node ns) = None"
  "\<forall>k. \<not> ctx k \<Longrightarrow> readableList entries \<Longrightarrow> fst (walkEntries ctx path entries ns) = None"
proof (induction ctx path node ns and ctx path entries ns rule: walk_walkEntries.induct)
  case (1 ctx path name r n s)
  then show ?case by (auto split: prod.splits)
next
  case (2 ctx path name r n s)
  then show ?case by (cases r) auto
next
  case (3 ctx dir n s)
  then show ?case by simp
next
  case (4 ctx dir e es n s)
  obtain e1 n1 s1 where w: "walk ctx (childPath dir (NodeName e)) e (n, s) = (e1, n1, s1)"
    by (cases "walk ctx (childPath dir (NodeName e)) e (n, s)") auto
  have "e1 = None" using "4.IH"(1)[OF "4.prems"(1)] "4.prems"(2) w by simp
  then show ?case using w "4.IH"(2)[OF w[symmetric] _ refl "4.prems"(1)] "4.prems"(2) by simp
qed

lemma Scan_success:
  "Scan ctx roots ns = (None, n', s') \<Longrightarrow>
     s' = foldl addScanned (snd ns) (filter notHidden (rootFiles roots)) \<and>
     list_all hashed (filter notHidden (rootFiles roots))"
proof (induction ctx roots ns arbitrary: n' s' rule: Scan.induct)
  case (1 ctx n s)
  then show ?case by (simp add: rootFiles_def)
next
  case (2 ctx path root rest n s)
  from "2.prems" obtain tree n1 s1 where
    t: "root = Inr tree" and w: "walk ctx ''.'' tree (n, s) = (None, n1, s1)"
    and r: "Scan ctx rest (n1, s1) = (None, n', s')"
    by (auto split: sum.splits prod.splits option.splits)
  from walk_success(1)[OF w] "2.IH"[OF t w[symmetric] refl refl r] t
  show ?case by (simp add: rootFiles_def)
qed

lemma Scan_readable:
  "\<forall>k. \<not> ctx k \<Longrightarrow> readableRoots roots \<Longrightarrow> fst (Scan ctx roots ns) = None"
proof (induction ctx roots ns rule: Scan.induct)
  case (1 ctx n s)
  then show ?case by simp
next
  case (2 ctx path root rest n s)
  from "2.prems"(2) obtain tree where t: "root = Inr tree" and rt: "readable tree"
    and rr: "readableRoots rest"
    by (cases root) auto
  obtain e1 n1 s1 where w: "walk ctx ''.'' tree (n, s) = (e1, n1, s1)"
    by (cases "walk ctx ''.'' tree (n, s)") auto
  have "e1 = None" using walk_readable(1)[OF "2.prems"(1) rt, of "''.''" "(n, s)"] w by simp
  then show ?case using t w "2.IH"[OF t w[symmetric] _ refl "2.prems"(1) rr] by simp
qed

text \<open>
  C9. When \<open>Scan\<close> returns nil, the storage is the one obtained by adding, in the order of
  the walk, every file of the trees whose own name does not start with a dot, each of them
  hashed; directories are never pruned, so the files inside a directory whose name starts with
  a dot are among them. \<open>Scan\<close> does return nil when the context is never done and the roots
  are readable.
\<close>

theorem Scan_adds_files_not_hidden:
  "(Scan ctx roots (n, s) = (None, n', s') \<longrightarrow>
      s' = foldl addScanned s (filter notHidden (rootFiles roots)) \<and>
      list_all hashed (filter notHidden (rootFiles roots))) \<and>
   ((\<forall>k. \<not> ctx k) \<and> readableRoots roots \<longrightarrow> fst (Scan ctx roots (n, s)) = None)"
  using Scan_success[of ctx roots "(n, s)" n' s'] Scan_readable[of ctx roots "(n, s)"] by auto

theorem Scan_adds_files_not_hidden_witness:
  "(\<forall>k. \<not> (\<lambda>k. False) k) \<and> readableRoots [(''root'', Inr exTree)] \<and>
   map fst (filter notHidden (rootFiles [(''root'', Inr exTree)])) = [''.git/config'', ''p/x''] \<and>
   fst (Scan (\<lambda>k. False) [(''root'', Inr exTree)] (0, NewMemoryStorage)) = None \<and>
   snd (snd (Scan (\<lambda>k. False) [(''root'', Inr exTree)] (0, NewMemoryStorage)))
     = foldl addScanned NewMemoryStorage (filter notHidden (rootFiles [(''root'', Inr exTree)])) \<and>
   Path (heap (snd (snd (Scan (\<lambda>k. False) [(''root'', Inr exTree)] (0, NewMemoryStorage)))) 0) = ''.git/config'' \<and>
   hashMap (snd (snd (Scan (\<lambda>k. False) [(''root'', Inr exTree)] (0, NewMemoryStorage)))) ''h1'' = Some 0"
proof -
  let ?run = "Scan (\<lambda>k. False) [(''root'', Inr exTree)] (0, NewMemoryStorage)"
  have rd: "readableRoots [(''root'', Inr exTree)]" by (simp add: exTree_def)
  have fl: "map fst (filter notHidden (rootFiles [(''root'', Inr exTree)])) = [''.git/config'', ''p/x'']"
    by (simp add: rootFiles_def exTree_def notHidden_def childPath_def evalPath)
  have ok: "fst ?run = None"
    using Scan_adds_files_not_hidden[of "\<lambda>k. False" "[(''root'', Inr exTree)]" 0 NewMemoryStorage] rd
    by simp
  then have eq: "?run = (None, fst (snd ?run), snd (snd ?run))"
    by (metis prod.collapse)
  have st: "snd (snd ?run) = foldl addScanned NewMemoryStorage (filter notHidden (rootFiles [(''root'', Inr exTree)]))"
    using Scan_adds_files_not_hidden[of "\<lambda>k. False" "[(''root'', Inr exTree)]" 0 NewMemoryStorage
        "fst (snd ?run)" "snd (snd ?run)"] eq by blast
  have ev: "Path (heap (foldl addScanned NewMemoryStorage (filter notHidden (rootFiles [(''root'', Inr exTree)]))) 0) = ''.git/config'' \<and>
            hashMap (foldl addScanned NewMemoryStorage (filter notHidden (rootFiles [(''root'', Inr exTree)]))) ''h1'' = Some 0"
    by (simp add: rootFiles_def exTree_def notHidden_def childPath_def addScanned_def evalStorage evalPath)
  show ?thesis using rd fl ok st ev by simp
qed

end
